theory Spec2Isabelle
  imports Complex_Main "HOL-Library.Log_Nat"
begin

section \<open>Vault curator: armor scorer, duplicate finder and cleanup planner\<close>

text \<open>
  Shallow embedding of the TypeScript sources \<^verbatim>\<open>types.ts\<close>, \<^verbatim>\<open>armor-scorer.ts\<close>,
  \<^verbatim>\<open>duplicate-finder.ts\<close>, \<^verbatim>\<open>parser.ts\<close> (DIM backup lookups) and
  \<^verbatim>\<open>cleanup-planner.ts\<close>.

  Conventions.
  \<^item> A JavaScript \<^verbatim>\<open>number\<close> that holds an integer (stats, power level, item hash,
    scores after \<^verbatim>\<open>Math.round\<close>) is an \<open>int\<close>. The fractions that the source
    computes (the base score below 60 total stats, the profile averages) are IEEE-754
    doubles: the model carries the value of a double as a \<open>rat\<close> and rounds the exact
    result of every arithmetic operation to the nearest double, ties to even
    (\<open>roundDouble\<close>). The exponent range is not bounded, so overflow to infinity,
    subnormal numbers and NaN are outside the model; the magnitudes that stats below
    \<open>2 ^ 53\<close> produce stay far from both ends.
  \<^item> An optional field (\<^verbatim>\<open>stats?\<close>, \<^verbatim>\<open>score?\<close>, \<^verbatim>\<open>protectedBy?\<close>) is an \<open>option\<close>.
  \<^item> A JavaScript \<^verbatim>\<open>Map\<close> whose iteration order matters is an association list in
    insertion order; the tag and note maps, which are only looked up, are HOL maps.
  \<^item> The methods are given twice: as functions on values, and (the planner) as state
    transformers on a store of arrays, where \<^verbatim>\<open>filter\<close> allocates and \<^verbatim>\<open>sort\<close> and
    \<^verbatim>\<open>push\<close> work in place. The second form is proved to compute the first.
  \<^item> \<^verbatim>\<open>Array.prototype.sort\<close> is stable; for the comparators of this program (all of
    them consistent orderings) its result is the one computed by stable insertion sort.
\<close>

subsection \<open>JavaScript helpers\<close>

text \<open>IEEE-754 binary64, round to nearest, ties to even. \<open>ilog2 a\<close> is the binary exponent
  of a positive \<open>a\<close> (the \<open>e\<close> with \<open>2 ^ e \<le> a < 2 ^ (e + 1)\<close>); a double with that
  exponent is a multiple of \<open>2 ^ (e - 52)\<close>.\<close>

definition ilog2 :: "rat \<Rightarrow> int" where
  "ilog2 a = (let (p, q) = quotient_of a; c = bitlen p - bitlen q
              in if 2 powi c \<le> a then c else c - 1)"

definition roundEven :: "rat \<Rightarrow> int" where
  "roundEven x = (let n = \<lfloor>x\<rfloor>; f = x - of_int n
                  in if f < 1 / 2 then n else if f > 1 / 2 then n + 1
                     else if even n then n else n + 1)"

definition roundDouble :: "rat \<Rightarrow> rat" where
  "roundDouble x =
     (if x = 0 then 0
      else (let u = 2 powi (ilog2 \<bar>x\<bar> - 52);
                m = of_int (roundEven (\<bar>x\<bar> / u)) * u
            in if x < 0 then - m else m))"

text \<open>The four arithmetic operations on doubles.\<close>

definition addD :: "rat \<Rightarrow> rat \<Rightarrow> rat" where
  "addD a b = roundDouble (a + b)"

definition subD :: "rat \<Rightarrow> rat \<Rightarrow> rat" where
  "subD a b = roundDouble (a - b)"

definition mulD :: "rat \<Rightarrow> rat \<Rightarrow> rat" where
  "mulD a b = roundDouble (a * b)"

definition divD :: "rat \<Rightarrow> rat \<Rightarrow> rat" where
  "divD a b = roundDouble (a / b)"

text \<open>\<^verbatim>\<open>Math.round\<close>: nearest integer, halves rounded towards plus infinity.\<close>

definition mathRound :: "rat \<Rightarrow> int" where
  "mathRound x = \<lfloor>x + 1 / 2\<rfloor>"

text \<open>\<^verbatim>\<open>Math.min(...xs)\<close> and \<^verbatim>\<open>Math.max(...xs)\<close>; the source only applies them to the
  six stat values, never to an empty array.\<close>

fun mathMin :: "int list \<Rightarrow> int" where
  "mathMin [x] = x"
| "mathMin (x # xs) = min x (mathMin xs)"

fun mathMax :: "int list \<Rightarrow> int" where
  "mathMax [x] = x"
| "mathMax (x # xs) = max x (mathMax xs)"

text \<open>\<^verbatim>\<open>xs.sort(cmp)\<close>: stable; an element stays in front of the later elements it
  compares equal to.\<close>

fun insertBy :: "('a \<Rightarrow> 'a \<Rightarrow> int) \<Rightarrow> 'a \<Rightarrow> 'a list \<Rightarrow> 'a list" where
  "insertBy cmp x [] = [x]"
| "insertBy cmp x (y # ys) = (if cmp x y \<le> 0 then x # y # ys else y # insertBy cmp x ys)"

fun jsSort :: "('a \<Rightarrow> 'a \<Rightarrow> int) \<Rightarrow> 'a list \<Rightarrow> 'a list" where
  "jsSort cmp [] = []"
| "jsSort cmp (x # xs) = insertBy cmp x (jsSort cmp xs)"

text \<open>\<^verbatim>\<open>xs.join(sep)\<close>.\<close>

fun join :: "string \<Rightarrow> string list \<Rightarrow> string" where
  "join sep [] = []"
| "join sep [x] = x"
| "join sep (x # y # ys) = x @ sep @ join sep (y # ys)"

text \<open>Template-literal conversion of an integer-valued number to its decimal string.\<close>

fun showNat :: "nat \<Rightarrow> string" where
  "showNat n = (if n < 10 then [''0123456789'' ! n]
                else showNat (n div 10) @ [''0123456789'' ! (n mod 10)])"

declare showNat.simps [simp del]

definition showInt :: "int \<Rightarrow> string" where
  "showInt i = (if i < 0 then CHR ''-'' # showNat (nat (- i)) else showNat (nat i))"

text \<open>Conversion of a double that is the nearest double to a number with at most one
  decimal digit (the profile scores): JavaScript prints the shortest decimal that reads
  back as the same double, which is that number (\<^verbatim>\<open>12.1\<close> prints as \<^verbatim>\<open>12.1\<close>, \<^verbatim>\<open>15\<close> as
  \<^verbatim>\<open>15\<close>).\<close>

definition showTenths :: "rat \<Rightarrow> string" where
  "showTenths r =
     (let n = \<lfloor>r * 10 + 1 / 2\<rfloor>; a = \<bar>n\<bar>
      in (if n < 0 then ''-'' else '''') @ showNat (nat (a div 10)) @
         (if a mod 10 = 0 then '''' else CHR ''.'' # showNat (nat (a mod 10))))"

text \<open>\<^verbatim>\<open>Map.prototype.get\<close> and \<^verbatim>\<open>Map.prototype.set\<close> on an insertion-ordered map: setting
  an existing key keeps its position.\<close>

fun mapGet :: "('k \<times> 'v) list \<Rightarrow> 'k \<Rightarrow> 'v option" where
  "mapGet [] k = None"
| "mapGet ((k', v) # m) k = (if k' = k then Some v else mapGet m k)"

fun mapSet :: "('k \<times> 'v) list \<Rightarrow> 'k \<Rightarrow> 'v \<Rightarrow> ('k \<times> 'v) list" where
  "mapSet [] k v = [(k, v)]"
| "mapSet ((k', v') # m) k v = (if k' = k then (k, v) # m else (k', v') # mapSet m k v)"

subsection \<open>Core types (types.ts)\<close>

datatype ItemLocation = LocationUnknown | Inventory | Vault | Vendor | Postmaster

datatype ItemTier = TierUnknown | Currency | Basic | Common | Rare | Legendary | Exotic

datatype ItemType = Weapon | Armor | Other

datatype ArmorSlot = Helmet | Gauntlets | Chest | Legs | ClassItem

datatype DestinyClass = Titan | Hunter | Warlock | ClassUnknown

record ArmorStats =
  mobility :: int
  resilience :: int
  recovery :: int
  discipline :: int
  intellect :: int
  strength :: int
  total :: int

record InventoryItem =
  itemInstanceId :: string
  itemHash :: int
  name :: string
  itemType :: ItemType
  tier :: ItemTier
  location :: ItemLocation
  characterId :: "string option"
  isEquipped :: bool
  isLocked :: bool
  isMasterworked :: bool
  powerLevel :: int
  armorSlot :: "ArmorSlot option"
  classType :: "DestinyClass option"
  stats :: "ArmorStats option"
  damageType :: "int option"
  weaponType :: "string option"

datatype Action = KEEP | REVIEW | JUNK

record CleanupRecommendation =
  item :: InventoryItem
  action :: Action
  reason :: string
  score :: "int option"
  protectedBy :: "string list option"

record PlanSummary =
  totalAnalyzed :: nat
  keep :: nat
  review :: nat
  junk :: nat
  protectedItems :: nat

text \<open>\<open>generatedAt\<close> is the clock reading (\<^verbatim>\<open>new Date()\<close>) in milliseconds.\<close>

record CleanupPlan =
  generatedAt :: nat
  summary :: PlanSummary
  recommendations :: "CleanupRecommendation list"

record DIMLoadout =
  loadoutId :: string
  loadoutName :: string
  loadoutClass :: DestinyClass
  itemIds :: "string list"

record DIMBackup =
  loadouts :: "DIMLoadout list"
  tags :: "string \<rightharpoonup> string"
  itemNotes :: "string \<rightharpoonup> string"

record ProtectionRules =
  protectDIMLoadouts :: bool
  protectLockedItems :: bool
  protectMasterworked :: bool
  protectExotics :: bool
  protectHighStatArmor :: bool
  highStatThreshold :: int
  customProtectedIds :: "string list"

subsection \<open>Armor scorer (armor-scorer.ts)\<close>

record Weights =
  w_mobility :: rat
  w_resilience :: rat
  w_recovery :: rat
  w_discipline :: rat
  w_intellect :: rat
  w_strength :: rat

record StatProfile =
  profileName :: string
  description :: string
  weights :: Weights

text \<open>A weight written as a decimal literal is the double nearest to it.\<close>

definition mkWeights :: "rat \<Rightarrow> rat \<Rightarrow> rat \<Rightarrow> rat \<Rightarrow> rat \<Rightarrow> rat \<Rightarrow> Weights" where
  "mkWeights m r rc d i s =
     \<lparr>w_mobility = roundDouble m, w_resilience = roundDouble r,
      w_recovery = roundDouble rc, w_discipline = roundDouble d,
      w_intellect = roundDouble i, w_strength = roundDouble s\<rparr>"

definition STAT_PROFILES :: "(string \<times> StatProfile) list" where
  "STAT_PROFILES =
    [(''pvp_hunter'', \<lparr>profileName = ''PvP Hunter'',
        description = ''High mobility and recovery for Crucible'',
        weights = mkWeights (3/2) (6/5) (13/10) (4/5) (7/10) (1/2)\<rparr>),
     (''pvp_titan'', \<lparr>profileName = ''PvP Titan'',
        description = ''High resilience with recovery focus'',
        weights = mkWeights (1/2) (3/2) (13/10) (4/5) (7/10) (7/10)\<rparr>),
     (''pvp_warlock'', \<lparr>profileName = ''PvP Warlock'',
        description = ''Recovery focused with resilience'',
        weights = mkWeights (1/2) (13/10) (3/2) (9/10) (7/10) (1/2)\<rparr>),
     (''pve_ability'', \<lparr>profileName = ''PvE Ability Spam'',
        description = ''Maximum ability regeneration'',
        weights = mkWeights (3/10) 1 (4/5) (3/2) (1/2) (13/10)\<rparr>),
     (''pve_balanced'', \<lparr>profileName = ''PvE Balanced'',
        description = ''Well-rounded for general PvE'',
        weights = mkWeights (1/2) (6/5) 1 (6/5) (3/5) (4/5)\<rparr>),
     (''gm_nightfall'', \<lparr>profileName = ''GM Nightfall'',
        description = ''Survival focused with discipline'',
        weights = mkWeights (3/10) (3/2) (6/5) (13/10) (1/2) (1/2)\<rparr>)]"

record ArmorAnalysis =
  totalStats :: int
  hasSpike :: bool
  hasSuperSpike :: bool
  topStats :: "(string \<times> int) list"
  weakStats :: "(string \<times> int) list"
  isWellDistributed :: bool
  artificeSlot :: bool

record ArmorScore =
  totalScore :: int
  profileScores :: "(string \<times> rat) list"
  bestProfile :: string
  bestProfileScore :: rat
  analysis :: ArmorAnalysis

text \<open>The scorer object: its profile map (filled from \<open>STAT_PROFILES\<close> by the
  constructor) and the fixed \<^verbatim>\<open>customThresholds\<close>.\<close>

record ArmorScorer =
  profiles :: "(string \<times> StatProfile) list"

definition newArmorScorer :: ArmorScorer where
  "newArmorScorer = \<lparr>profiles = STAT_PROFILES\<rparr>"

definition minTotalStats :: int where
  "minTotalStats = 60"

definition goodTotalStats :: int where
  "goodTotalStats = 65"

definition excellentTotalStats :: int where
  "excellentTotalStats = 68"

definition spikeThreshold :: int where
  "spikeThreshold = 20"

definition superSpikeThreshold :: int where
  "superSpikeThreshold = 26"

definition weakStatThreshold :: int where
  "weakStatThreshold = 6"

definition statValues :: "ArmorStats \<Rightarrow> (string \<times> int) list" where
  "statValues st =
     [(''Mobility'', mobility st), (''Resilience'', resilience st),
      (''Recovery'', recovery st), (''Discipline'', discipline st),
      (''Intellect'', intellect st), (''Strength'', strength st)]"

definition analyzeStats :: "ArmorStats \<Rightarrow> ArmorAnalysis" where
  "analyzeStats st =
     (let sorted = jsSort (\<lambda>a b. snd b - snd a) (statValues st);
          top = take 2 sorted;
          weak = filter (\<lambda>s. snd s \<le> weakStatThreshold) (statValues st);
          spike = list_ex (\<lambda>s. snd s \<ge> spikeThreshold) (statValues st);
          superSpike = list_ex (\<lambda>s. snd s \<ge> superSpikeThreshold) (statValues st);
          minStat = mathMin (map snd (statValues st));
          maxStat = mathMax (map snd (statValues st))
      in \<lparr>totalStats = total st,
          hasSpike = spike,
          hasSuperSpike = superSpike,
          topStats = top,
          weakStats = weak,
          isWellDistributed = (minStat \<ge> 6 \<and> maxStat - minStat \<le> 15),
          artificeSlot = False\<rparr>)"

text \<open>The weighted average of the six stats, rounded to one decimal, in the source's
  order of operations. Every profile of \<open>STAT_PROFILES\<close> has a positive total weight; a
  profile whose weights sum to zero (for which the source divides by zero) is outside
  the model.\<close>

definition calculateProfileScore :: "ArmorStats \<Rightarrow> StatProfile \<Rightarrow> rat" where
  "calculateProfileScore st profile =
     (let w = weights profile;
          weightedSum =
            addD (addD (addD (addD (addD
              (mulD (of_int (mobility st)) (w_mobility w))
              (mulD (of_int (resilience st)) (w_resilience w)))
              (mulD (of_int (recovery st)) (w_recovery w)))
              (mulD (of_int (discipline st)) (w_discipline w)))
              (mulD (of_int (intellect st)) (w_intellect w)))
              (mulD (of_int (strength st)) (w_strength w));
          totalWeight =
            addD (addD (addD (addD (addD
              (w_mobility w) (w_resilience w)) (w_recovery w))
              (w_discipline w)) (w_intellect w)) (w_strength w)
      in divD (of_int (mathRound (mulD (divD weightedSum totalWeight) 10))) 10)"

text \<open>The five contributions of \<^verbatim>\<open>calculateTotalScore\<close>, one per commented block of the
  source, in the order in which the source adds them to \<^verbatim>\<open>score\<close>.\<close>

definition baseScore :: "ArmorStats \<Rightarrow> rat" where
  "baseScore st =
     (if total st \<ge> excellentTotalStats then 40
      else if total st \<ge> goodTotalStats then 30
      else if total st \<ge> minTotalStats then 20
      else max 0 (mulD (divD (of_int (total st)) (of_int minTotalStats)) 20))"

definition spikeBonus :: "ArmorAnalysis \<Rightarrow> rat" where
  "spikeBonus an = (if hasSuperSpike an then 30 else if hasSpike an then 20 else 0)"

definition distributionBonus :: "ArmorAnalysis \<Rightarrow> rat" where
  "distributionBonus an = (if isWellDistributed an then 15 else 0)"

definition weakPenalty :: "ArmorAnalysis \<Rightarrow> rat" where
  "weakPenalty an = of_int (min (int (length (weakStats an)) * 5) 15)"

definition topStatSum :: "ArmorAnalysis \<Rightarrow> int" where
  "topStatSum an = foldl (\<lambda>sum s. sum + snd s) 0 (topStats an)"

definition topStatBonus :: "ArmorAnalysis \<Rightarrow> rat" where
  "topStatBonus an =
     (if topStatSum an \<ge> 45 then 15
      else if topStatSum an \<ge> 40 then 10
      else if topStatSum an \<ge> 35 then 5
      else 0)"

definition calculateTotalScore :: "ArmorStats \<Rightarrow> ArmorAnalysis \<Rightarrow> int" where
  "calculateTotalScore st an =
     (let score =
            addD (subD (addD (addD (addD 0 (baseScore st)) (spikeBonus an))
              (distributionBonus an)) (weakPenalty an)) (topStatBonus an)
      in max 0 (min 100 (mathRound score)))"

text \<open>The loop of \<^verbatim>\<open>scoreArmor\<close> over the profile map; the state is
  \<open>(profileScores, bestProfile, bestProfileScore)\<close>.\<close>

fun scoreProfiles ::
  "ArmorStats \<Rightarrow> (string \<times> StatProfile) list \<Rightarrow> (string \<times> rat) list \<times> string \<times> rat
     \<Rightarrow> (string \<times> rat) list \<times> string \<times> rat" where
  "scoreProfiles st [] acc = acc"
| "scoreProfiles st ((ident, profile) # rest) (scores, best, bestScore) =
     (let sc = calculateProfileScore st profile;
          scores' = mapSet scores ident sc
      in if sc > bestScore then scoreProfiles st rest (scores', ident, sc)
         else scoreProfiles st rest (scores', best, bestScore))"

definition scoreArmor :: "ArmorScorer \<Rightarrow> InventoryItem \<Rightarrow> ArmorScore option" where
  "scoreArmor scorer it =
     (if itemType it \<noteq> Armor then None
      else case stats it of
        None \<Rightarrow> None
      | Some st \<Rightarrow>
          (let an = analyzeStats st;
               (scores, best, bestScore) = scoreProfiles st (profiles scorer) ([], '''', 0);
               tot = calculateTotalScore st an
           in Some \<lparr>totalScore = tot, profileScores = scores, bestProfile = best,
                    bestProfileScore = bestScore, analysis = an\<rparr>))"

record CompareResult =
  winner :: "InventoryItem option"
  cmpReason :: string
  score1 :: "ArmorScore option"
  score2 :: "ArmorScore option"

definition compareArmor :: "ArmorScorer \<Rightarrow> InventoryItem \<Rightarrow> InventoryItem \<Rightarrow> CompareResult" where
  "compareArmor scorer item1 item2 =
     (let s1 = scoreArmor scorer item1; s2 = scoreArmor scorer item2
      in case (s1, s2) of
           (None, None) \<Rightarrow>
             \<lparr>winner = None, cmpReason = ''Neither item has stats'', score1 = s1, score2 = s2\<rparr>
         | (None, Some _) \<Rightarrow>
             \<lparr>winner = Some item2, cmpReason = ''First item has no stats'',
              score1 = s1, score2 = s2\<rparr>
         | (Some _, None) \<Rightarrow>
             \<lparr>winner = Some item1, cmpReason = ''Second item has no stats'',
              score1 = s1, score2 = s2\<rparr>
         | (Some sc1, Some sc2) \<Rightarrow>
             (let scoreDiff = totalScore sc1 - totalScore sc2
              in if \<bar>scoreDiff\<bar> < 5 then
                   (let profile1Best = bestProfileScore sc1;
                        profile2Best = bestProfileScore sc2
                    in if profile1Best > addD profile2Best 2 then
                         \<lparr>winner = Some item1,
                          cmpReason = ''Better for '' @ bestProfile sc1 @ '' builds ('' @
                            showTenths profile1Best @ '' vs '' @ showTenths profile2Best @ '')'',
                          score1 = s1, score2 = s2\<rparr>
                       else if profile2Best > addD profile1Best 2 then
                         \<lparr>winner = Some item2,
                          cmpReason = ''Better for '' @ bestProfile sc2 @ '' builds ('' @
                            showTenths profile2Best @ '' vs '' @ showTenths profile1Best @ '')'',
                          score1 = s1, score2 = s2\<rparr>
                       else
                         \<lparr>winner = None,
                          cmpReason = ''Too close to call ('' @ showInt (totalScore sc1) @
                            '' vs '' @ showInt (totalScore sc2) @ '')'',
                          score1 = s1, score2 = s2\<rparr>)
                 else
                   (let win = (if scoreDiff > 0 then item1 else item2);
                        winnerScore = (if scoreDiff > 0 then sc1 else sc2);
                        loserScore = (if scoreDiff > 0 then sc2 else sc1)
                    in \<lparr>winner = Some win,
                        cmpReason = ''Higher overall score ('' @ showInt (totalScore winnerScore) @
                          '' vs '' @ showInt (totalScore loserScore) @ '')'',
                        score1 = s1, score2 = s2\<rparr>)))"

subsection \<open>DIM backup lookups (parser.ts)\<close>

text \<open>The parser object holds the parsed backup, or nothing before a backup is loaded.\<close>

record DIMParser =
  backup :: "DIMBackup option"

definition loaded :: "DIMParser \<Rightarrow> bool" where
  "loaded parser = (backup parser \<noteq> None)"

definition getLoadoutsForItem :: "DIMParser \<Rightarrow> string \<Rightarrow> DIMLoadout list" where
  "getLoadoutsForItem parser ident =
     (case backup parser of
        None \<Rightarrow> []
      | Some b \<Rightarrow> filter (\<lambda>l. ident \<in> set (itemIds l)) (loadouts b))"

definition getTag :: "DIMParser \<Rightarrow> string \<Rightarrow> string option" where
  "getTag parser ident = (case backup parser of None \<Rightarrow> None | Some b \<Rightarrow> tags b ident)"

subsection \<open>Duplicate finder (duplicate-finder.ts)\<close>

text \<open>\<open>keepCount\<close> indexes the sorted group, so it is a natural number; the source's
  loops read \<^verbatim>\<open>withScores[i]\<close> from \<^verbatim>\<open>i = keepCount\<close> on.\<close>

record DuplicateFinderOptions =
  includeWeapons :: bool
  includeArmor :: bool
  minDuplicates :: int
  keepCount :: nat

definition DEFAULT_OPTIONS :: DuplicateFinderOptions where
  "DEFAULT_OPTIONS =
     \<lparr>includeWeapons = True, includeArmor = True, minDuplicates = 2, keepCount = 1\<rparr>"

record DuplicateRecommendation =
  recKeep :: "InventoryItem list"
  recDiscard :: "InventoryItem list"
  recReview :: "InventoryItem list"
  reasoning :: string

record DuplicateGroup =
  groupHash :: int
  groupName :: string
  groupSlot :: "ArmorSlot option"
  groupClassType :: "DestinyClass option"
  groupItems :: "InventoryItem list"
  recommendation :: DuplicateRecommendation

text \<open>The finder object. The constructor overlays the caller's options on
  \<open>DEFAULT_OPTIONS\<close>; the model's constructor takes the resulting options.\<close>

record DuplicateFinder =
  scorer :: ArmorScorer
  options :: DuplicateFinderOptions

definition newDuplicateFinder :: "DuplicateFinderOptions \<Rightarrow> DuplicateFinder" where
  "newDuplicateFinder opts = \<lparr>scorer = newArmorScorer, options = opts\<rparr>"

text \<open>The comparator of the weapon ranking: masterworked first, then locked, then the
  higher power level. \<^verbatim>\<open>recommendWeapons\<close> and the planner's \<^verbatim>\<open>analyzeWeapon\<close> each
  pass this same function, written out as a lambda, to \<^verbatim>\<open>sort\<close>.\<close>

definition weaponCompare :: "InventoryItem \<Rightarrow> InventoryItem \<Rightarrow> int" where
  "weaponCompare a b =
     (if isMasterworked a \<noteq> isMasterworked b then (if isMasterworked a then - 1 else 1)
      else if isLocked a \<noteq> isLocked b then (if isLocked a then - 1 else 1)
      else powerLevel b - powerLevel a)"

text \<open>\<^verbatim>\<open>${item.stats?.total}\<close> in a template literal.\<close>

definition showStatsTotal :: "InventoryItem \<Rightarrow> string" where
  "showStatsTotal it = (case stats it of None \<Rightarrow> ''undefined'' | Some st \<Rightarrow> showInt (total st))"

text \<open>\<^verbatim>\<open>recommendArmor\<close>, loop over the scored items from index \<open>keepCount\<close> on; the state
  is \<open>(discarded, reviewed, reasons)\<close>, and \<open>best\<close> is \<^verbatim>\<open>withScores[0].score\<close>.\<close>

fun armorRemaining ::
  "ArmorScore \<Rightarrow> (InventoryItem \<times> ArmorScore) list
     \<Rightarrow> InventoryItem list \<times> InventoryItem list \<times> string list
     \<Rightarrow> InventoryItem list \<times> InventoryItem list \<times> string list" where
  "armorRemaining best [] acc = acc"
| "armorRemaining best ((it, sc) # rest) (discarded, reviewed, reasons) =
     (if totalScore best - totalScore sc > 15 then
        armorRemaining best rest
          (discarded @ [it], reviewed,
           reasons @ [''Discard '' @ name it @ '' (score: '' @ showInt (totalScore sc) @
                      '', significantly worse than best)''])
      else if totalScore sc \<ge> 60 then
        armorRemaining best rest
          (discarded, reviewed @ [it],
           reasons @ [''Review '' @ name it @ '' (score: '' @ showInt (totalScore sc) @
                      '', may be useful for specific builds)''])
      else
        armorRemaining best rest
          (discarded @ [it], reviewed,
           reasons @ [''Discard '' @ name it @ '' (score: '' @ showInt (totalScore sc) @
                      '', low quality)'']))"

text \<open>The last loop of \<^verbatim>\<open>recommendArmor\<close>: locked or masterworked items leave the
  discard list for the review list; the state is \<open>(unprotectedDiscard, review, reasons)\<close>.\<close>

fun armorProtect ::
  "InventoryItem list \<Rightarrow> InventoryItem list \<times> InventoryItem list \<times> string list
     \<Rightarrow> InventoryItem list \<times> InventoryItem list \<times> string list" where
  "armorProtect [] acc = acc"
| "armorProtect (it # rest) (unprotectedDiscard, reviewed, reasons) =
     (if isLocked it \<or> isMasterworked it then
        armorProtect rest
          (unprotectedDiscard, reviewed @ [it],
           reasons @ [''Moved '' @ name it @ '' to review ('' @
                      (if isLocked it then ''locked'' else ''masterworked'') @ '')''])
      else armorProtect rest (unprotectedDiscard @ [it], reviewed, reasons))"

definition recommendArmor :: "DuplicateFinder \<Rightarrow> InventoryItem list \<Rightarrow> DuplicateRecommendation" where
  "recommendArmor finder its =
     (let scored = map (\<lambda>it. (it, scoreArmor (scorer finder) it)) its;
          withScores = jsSort (\<lambda>a b. totalScore (snd b) - totalScore (snd a))
            (concat (map (\<lambda>(it, s). case s of None \<Rightarrow> [] | Some sc \<Rightarrow> [(it, sc)]) scored));
          withoutScores = filter (\<lambda>(it, s). s = None) scored;
          kept = take (keepCount (options finder)) withScores;
          keepReasons = map (\<lambda>(it, sc). ''Keep '' @ name it @ '' (score: '' @
                               showInt (totalScore sc) @ '', stats: '' @ showStatsTotal it @ '')'')
                          kept;
          (discard, review, reasons) =
            (case withScores of
               [] \<Rightarrow> ([], [], keepReasons)
             | b # _ \<Rightarrow> armorRemaining (snd b) (drop (keepCount (options finder)) withScores)
                          ([], [], keepReasons));
          review' = review @ map fst withoutScores;
          reasons' = reasons @
            map (\<lambda>(it, s). ''Review '' @ name it @ '' (no stats available)'') withoutScores;
          (unprotectedDiscard, review'', reasons'') = armorProtect discard ([], review', reasons')
      in \<lparr>recKeep = map fst kept, recDiscard = unprotectedDiscard, recReview = review'',
          reasoning = join [CHR 0x0A] reasons''\<rparr>)"

definition recommendWeapons :: "DuplicateFinder \<Rightarrow> InventoryItem list \<Rightarrow> DuplicateRecommendation" where
  "recommendWeapons finder its =
     (let sorted = jsSort weaponCompare its;
          kept = take (keepCount (options finder)) sorted;
          remaining = drop (keepCount (options finder)) sorted;
          review = filter (\<lambda>it. isLocked it \<or> isMasterworked it) remaining;
          discard = filter (\<lambda>it. \<not> (isLocked it \<or> isMasterworked it)) remaining
      in \<lparr>recKeep = kept, recDiscard = discard, recReview = review,
          reasoning = join [CHR 0x0A]
            (filter (\<lambda>line. line \<noteq> [])
              [''Keep '' @ join '', ''
                 (map (\<lambda>i. name i @ '' (PL: '' @ showInt (powerLevel i) @
                            (if isMasterworked i then '', MW'' else []) @ '')'') kept),
               if length discard > 0
               then ''Discard '' @ showInt (int (length discard)) @ '' lower-priority duplicates''
               else [],
               if length review > 0
               then ''Review '' @ showInt (int (length review)) @ '' items (locked or masterworked)''
               else []])\<rparr>)"

text \<open>\<^verbatim>\<open>generateRecommendation\<close> reads \<^verbatim>\<open>items[0]\<close>; it is only called on the groups of
  the map, which have at least one item.\<close>

definition generateRecommendation ::
  "DuplicateFinder \<Rightarrow> InventoryItem list \<Rightarrow> DuplicateRecommendation" where
  "generateRecommendation finder its =
     (if itemType (hd its) = Armor then recommendArmor finder its
      else recommendWeapons finder its)"

text \<open>First loop of \<^verbatim>\<open>findDuplicates\<close>: fill the map from item hash to the items seen
  with that hash. The source keys the map by \<^verbatim>\<open>itemHash.toString()\<close> and reads the hash
  back with \<^verbatim>\<open>parseInt\<close>; the decimal string of an integer determines the integer, so
  the model keys the map by the hash itself.\<close>

fun collectGroups ::
  "DuplicateFinderOptions \<Rightarrow> InventoryItem list \<Rightarrow> (int \<times> InventoryItem list) list
     \<Rightarrow> (int \<times> InventoryItem list) list" where
  "collectGroups opts [] groups = groups"
| "collectGroups opts (it # rest) groups =
     (if itemType it = Weapon \<and> \<not> includeWeapons opts then collectGroups opts rest groups
      else if itemType it = Armor \<and> \<not> includeArmor opts then collectGroups opts rest groups
      else if itemType it = Other then collectGroups opts rest groups
      else
        (let key = itemHash it;
             grp = (case mapGet groups key of None \<Rightarrow> [] | Some g \<Rightarrow> g)
         in collectGroups opts rest (mapSet groups key (grp @ [it]))))"

text \<open>Second loop: keep the groups that reach \<^verbatim>\<open>minDuplicates\<close>. Every group in the map
  has at least one item, so \<^verbatim>\<open>groupItems[0]\<close> exists.\<close>

fun buildGroups ::
  "DuplicateFinder \<Rightarrow> (int \<times> InventoryItem list) list \<Rightarrow> DuplicateGroup list" where
  "buildGroups finder [] = []"
| "buildGroups finder ((hash, its) # rest) =
     (if int (length its) < minDuplicates (options finder) then buildGroups finder rest
      else \<lparr>groupHash = hash, groupName = name (hd its), groupSlot = armorSlot (hd its),
            groupClassType = classType (hd its), groupItems = its,
            recommendation = generateRecommendation finder its\<rparr>
             # buildGroups finder rest)"

definition findDuplicates :: "DuplicateFinder \<Rightarrow> InventoryItem list \<Rightarrow> DuplicateGroup list" where
  "findDuplicates finder its =
     jsSort (\<lambda>a b. int (length (groupItems b)) - int (length (groupItems a)))
       (buildGroups finder (collectGroups (options finder) its []))"

subsection \<open>Cleanup planner (cleanup-planner.ts)\<close>

definition DEFAULT_PROTECTION_RULES :: ProtectionRules where
  "DEFAULT_PROTECTION_RULES =
     \<lparr>protectDIMLoadouts = True, protectLockedItems = True, protectMasterworked = True,
      protectExotics = True, protectHighStatArmor = True, highStatThreshold = 65,
      customProtectedIds = []\<rparr>"

record CleanupPlannerConfig =
  configRules :: ProtectionRules
  includeCharacterInventory :: bool
  onlyVault :: bool

text \<open>The planner object, as its constructor builds it when called with the parser
  alone (the only call in the repository). \<^verbatim>\<open>generatePlan\<close> and the methods it calls
  read the fields and assign none of them, so the operations below take the planner and
  return no new one; the store model further down has the planner object in its state and
  proves that the calls leave it as it was.\<close>

record CleanupPlanner =
  dimParser :: DIMParser
  armorScorer :: ArmorScorer
  duplicateFinder :: DuplicateFinder
  protectionRules :: ProtectionRules
  config :: CleanupPlannerConfig

definition newCleanupPlanner :: "DIMParser \<Rightarrow> CleanupPlanner" where
  "newCleanupPlanner parser =
     \<lparr>dimParser = parser, armorScorer = newArmorScorer,
      duplicateFinder = newDuplicateFinder DEFAULT_OPTIONS,
      protectionRules = DEFAULT_PROTECTION_RULES,
      config = \<lparr>configRules = DEFAULT_PROTECTION_RULES,
                includeCharacterInventory = False, onlyVault = True\<rparr>\<rparr>"

text \<open>The list \<^verbatim>\<open>protectedBy\<close> that \<^verbatim>\<open>analyzeItem\<close> accumulates (protection rules, then
  the favorite and keep tags), in the order of the pushes.\<close>

definition protectionReasons :: "CleanupPlanner \<Rightarrow> InventoryItem \<Rightarrow> string list" where
  "protectionReasons p it =
     (let rules = protectionRules p; parser = dimParser p
      in (if protectDIMLoadouts rules \<and> loaded parser then
            (let ls = getLoadoutsForItem parser (itemInstanceId it)
             in if length ls > 0
                then [''DIM Loadouts: '' @ join '', '' (map loadoutName ls)] else [])
          else [])
       @ (if protectLockedItems rules \<and> isLocked it then [''Locked in game''] else [])
       @ (if protectMasterworked rules \<and> isMasterworked it then [''Masterworked''] else [])
       @ (if protectExotics rules \<and> tier it = Exotic then [''Exotic item''] else [])
       @ (if itemInstanceId it \<in> set (customProtectedIds rules)
          then [''Custom protection''] else [])
       @ (if loaded parser then
            (let tag = getTag parser (itemInstanceId it)
             in if tag = Some ''favorite'' then [''DIM Favorite'']
                else if tag = Some ''keep'' then [''DIM Keep tag'']
                else [])
          else []))"

text \<open>The list \<^verbatim>\<open>reasons\<close> that \<^verbatim>\<open>analyzeItem\<close> hands to the armor and weapon analysis:
  the note for the junk tag, pushed in the last branch of the tag check.\<close>

definition tagReasons :: "CleanupPlanner \<Rightarrow> InventoryItem \<Rightarrow> string list" where
  "tagReasons p it =
     (let parser = dimParser p
      in if loaded parser then
           (let tag = getTag parser (itemInstanceId it)
            in if tag = Some ''favorite'' then []
               else if tag = Some ''keep'' then []
               else if tag = Some ''junk'' then [''Tagged as junk in DIM'']
               else [])
         else [])"

definition hasBetterDuplicate :: "CleanupPlanner \<Rightarrow> InventoryItem \<Rightarrow> InventoryItem list \<Rightarrow> bool" where
  "hasBetterDuplicate p it allItems =
     (let duplicates = filter (\<lambda>i. itemHash i = itemHash it
                                  \<and> itemInstanceId i \<noteq> itemInstanceId it
                                  \<and> itemType i = Armor) allItems
      in if length duplicates = 0 then False
         else case scoreArmor (armorScorer p) it of
           None \<Rightarrow> False
         | Some itemScore \<Rightarrow>
             list_ex (\<lambda>dupe. case scoreArmor (armorScorer p) dupe of
                               None \<Rightarrow> False
                             | Some dupeScore \<Rightarrow> totalScore dupeScore > totalScore itemScore + 10)
               duplicates)"

definition analyzeArmor ::
  "CleanupPlanner \<Rightarrow> InventoryItem \<Rightarrow> InventoryItem list \<Rightarrow> string list \<Rightarrow> CleanupRecommendation" where
  "analyzeArmor p it allItems existingReasons =
     (let rules = protectionRules p
      in case scoreArmor (armorScorer p) it of
        Some armorScore \<Rightarrow>
          (let sc = totalScore armorScore;
               byScore =
                 (if sc \<ge> 75 then
                    \<lparr>item = it, action = KEEP,
                     reason = join ''. ''
                       (existingReasons @ [''Excellent armor score: '' @ showInt sc @ ''/100'']),
                     score = Some sc, protectedBy = None\<rparr>
                  else if sc \<ge> 50 then
                    (let reasons =
                           existingReasons @ [''Decent armor score: '' @ showInt sc @ ''/100'']
                     in if hasBetterDuplicate p it allItems then
                          \<lparr>item = it, action = REVIEW,
                           reason = join ''. '' (reasons @ [''Better duplicate exists'']),
                           score = Some sc, protectedBy = None\<rparr>
                        else
                          \<lparr>item = it, action = KEEP, reason = join ''. '' reasons,
                           score = Some sc, protectedBy = None\<rparr>)
                  else if sc \<ge> 30 then
                    \<lparr>item = it, action = REVIEW,
                     reason = join ''. ''
                       (existingReasons @ [''Below average armor score: '' @ showInt sc @ ''/100'']),
                     score = Some sc, protectedBy = None\<rparr>
                  else
                    \<lparr>item = it, action = JUNK,
                     reason = join ''. ''
                       (existingReasons @ [''Poor armor score: '' @ showInt sc @ ''/100'']),
                     score = Some sc, protectedBy = None\<rparr>)
           in case stats it of
                Some st \<Rightarrow>
                  if protectHighStatArmor rules \<and> total st \<ge> highStatThreshold rules then
                    \<lparr>item = it, action = KEEP,
                     reason = ''High stat armor ('' @ showInt (total st) @ '' total)'',
                     score = Some sc,
                     protectedBy = Some [''High stats: '' @ showInt (total st) @ '' total'']\<rparr>
                  else byScore
              | None \<Rightarrow> byScore)
      | None \<Rightarrow>
          \<lparr>item = it, action = REVIEW,
           reason = join ''. '' (existingReasons @ [''Unable to score (no stats)'']),
           score = None, protectedBy = None\<rparr>)"

text \<open>\<^verbatim>\<open>allCopies\<close> starts with the item itself, so \<^verbatim>\<open>sorted[0]\<close> always exists.\<close>

definition analyzeWeapon ::
  "CleanupPlanner \<Rightarrow> InventoryItem \<Rightarrow> InventoryItem list \<Rightarrow> string list \<Rightarrow> CleanupRecommendation" where
  "analyzeWeapon p it allItems existingReasons =
     (let duplicates = filter (\<lambda>i. itemHash i = itemHash it
                                  \<and> itemInstanceId i \<noteq> itemInstanceId it) allItems
      in if length duplicates = 0 then
           \<lparr>item = it, action = KEEP,
            reason = join ''. '' (existingReasons @ [''Only copy of this weapon'']),
            score = None, protectedBy = None\<rparr>
         else
           (let allCopies = it # duplicates;
                sorted = jsSort weaponCompare allCopies;
                bestCopy = hd sorted
            in if itemInstanceId bestCopy = itemInstanceId it then
                 \<lparr>item = it, action = KEEP,
                  reason = join ''. '' (existingReasons @
                    [''Best copy among '' @ showInt (int (length allCopies)) @ '' duplicates'']),
                  score = None, protectedBy = None\<rparr>
               else
                 \<lparr>item = it, action = JUNK,
                  reason = join ''. '' (existingReasons @
                    [''Duplicate ('' @ showInt (int (length duplicates)) @ '' others exist)'',
                     ''Not the best copy'']),
                  score = None, protectedBy = None\<rparr>))"

definition analyzeItem ::
  "CleanupPlanner \<Rightarrow> InventoryItem \<Rightarrow> InventoryItem list \<Rightarrow> CleanupRecommendation" where
  "analyzeItem p it allItems =
     (let protected = protectionReasons p it;
          reasons = tagReasons p it
      in if length protected > 0 then
           \<lparr>item = it, action = KEEP,
            reason = ''Protected: '' @ join '', '' protected,
            score = None, protectedBy = Some protected\<rparr>
         else if itemType it = Armor then analyzeArmor p it allItems reasons
         else analyzeWeapon p it allItems reasons)"

definition targetItems :: "CleanupPlanner \<Rightarrow> InventoryItem list \<Rightarrow> InventoryItem list" where
  "targetItems p its =
     filter (\<lambda>it. if onlyVault (config p) \<and> location it \<noteq> Vault then False
                  else itemType it = Weapon \<or> itemType it = Armor) its"

definition actionOrder :: "Action \<Rightarrow> int" where
  "actionOrder a = (case a of JUNK \<Rightarrow> 0 | REVIEW \<Rightarrow> 1 | KEEP \<Rightarrow> 2)"

text \<open>\<^verbatim>\<open>r.protectedBy && r.protectedBy.length > 0\<close>.\<close>

definition hasProtection :: "CleanupRecommendation \<Rightarrow> bool" where
  "hasProtection r = (case protectedBy r of None \<Rightarrow> False | Some l \<Rightarrow> length l > 0)"

text \<open>\<open>now\<close> is the value of \<^verbatim>\<open>new Date()\<close> at the call.\<close>

definition generatePlan :: "CleanupPlanner \<Rightarrow> nat \<Rightarrow> InventoryItem list \<Rightarrow> CleanupPlan" where
  "generatePlan p now its =
     (let target = targetItems p its;
          recs = map (\<lambda>it. analyzeItem p it target) target;
          sorted = jsSort (\<lambda>a b. actionOrder (action a) - actionOrder (action b)) recs
      in \<lparr>generatedAt = now,
          summary =
            \<lparr>totalAnalyzed = length sorted,
             keep = length (filter (\<lambda>r. action r = KEEP) sorted),
             review = length (filter (\<lambda>r. action r = REVIEW) sorted),
             junk = length (filter (\<lambda>r. action r = JUNK) sorted),
             protectedItems = length (filter hasProtection sorted)\<rparr>,
          recommendations = sorted\<rparr>)"

subsection \<open>The planner over a store (cleanup-planner.ts, arrays by reference)\<close>

text \<open>
  The definitions above give the value that each method returns. The ones below give the
  same methods together with what they do to memory, so that a statement about two calls
  in a row can speak of the state that the first call leaves behind.

  A \<open>World\<close> holds the clock, the planner object (\<^verbatim>\<open>this\<close>, with its parser, scorer, rules
  and configuration) and two heaps of arrays, one of item arrays and one of recommendation
  arrays. An array reference is an index into its heap. \<^verbatim>\<open>filter\<close>, the spread
  \<^verbatim>\<open>[item, ...duplicates]\<close> and the literal \<^verbatim>\<open>[]\<close> allocate a new array at the end of the
  heap; \<^verbatim>\<open>sort\<close> and \<^verbatim>\<open>push\<close> write to the array they are called on, and \<^verbatim>\<open>sort\<close>
  returns the reference it was given. Items and recommendations sit in the arrays as
  values: the planner assigns to no field of an item, nor of a recommendation once it is
  built. The arrays \<^verbatim>\<open>protectedBy\<close> and \<^verbatim>\<open>reasons\<close> are local to one \<^verbatim>\<open>analyzeItem\<close> and are
  kept as values as well. The clock is read by \<^verbatim>\<open>new Date()\<close>; it does not move during a
  call, and the caller may move it between calls.
\<close>

record World =
  clock :: nat
  plannerObject :: CleanupPlanner
  itemArrays :: "InventoryItem list list"
  recArrays :: "CleanupRecommendation list list"

text \<open>The returned \<^verbatim>\<open>CleanupPlan\<close> object: its \<^verbatim>\<open>recommendations\<close> field is a reference to
  the array that \<^verbatim>\<open>generatePlan\<close> built and sorted.\<close>

record CleanupPlanObject =
  generatedAtOf :: nat
  summaryOf :: PlanSummary
  recommendationsRef :: nat

definition itemsAt :: "World \<Rightarrow> nat \<Rightarrow> InventoryItem list" where
  "itemsAt w a = itemArrays w ! a"

definition recsAt :: "World \<Rightarrow> nat \<Rightarrow> CleanupRecommendation list" where
  "recsAt w a = recArrays w ! a"

text \<open>Array operations on the heap of item arrays and on the heap of recommendation
  arrays.\<close>

definition newItemArray :: "InventoryItem list \<Rightarrow> World \<Rightarrow> nat \<times> World" where
  "newItemArray xs w = (length (itemArrays w), w\<lparr>itemArrays := itemArrays w @ [xs]\<rparr>)"

definition filterItems :: "(InventoryItem \<Rightarrow> bool) \<Rightarrow> nat \<Rightarrow> World \<Rightarrow> nat \<times> World" where
  "filterItems P a w = newItemArray (filter P (itemsAt w a)) w"

definition sortItems ::
  "(InventoryItem \<Rightarrow> InventoryItem \<Rightarrow> int) \<Rightarrow> nat \<Rightarrow> World \<Rightarrow> nat \<times> World" where
  "sortItems cmp a w = (a, w\<lparr>itemArrays := (itemArrays w)[a := jsSort cmp (itemsAt w a)]\<rparr>)"

definition newRecArray :: "CleanupRecommendation list \<Rightarrow> World \<Rightarrow> nat \<times> World" where
  "newRecArray xs w = (length (recArrays w), w\<lparr>recArrays := recArrays w @ [xs]\<rparr>)"

definition pushRec :: "nat \<Rightarrow> CleanupRecommendation \<Rightarrow> World \<Rightarrow> World" where
  "pushRec a r w = w\<lparr>recArrays := (recArrays w)[a := recsAt w a @ [r]]\<rparr>"

definition sortRecs ::
  "(CleanupRecommendation \<Rightarrow> CleanupRecommendation \<Rightarrow> int) \<Rightarrow> nat \<Rightarrow> World \<Rightarrow> nat \<times> World" where
  "sortRecs cmp a w = (a, w\<lparr>recArrays := (recArrays w)[a := jsSort cmp (recsAt w a)]\<rparr>)"

definition filterRecs :: "(CleanupRecommendation \<Rightarrow> bool) \<Rightarrow> nat \<Rightarrow> World \<Rightarrow> nat \<times> World" where
  "filterRecs P a w = newRecArray (filter P (recsAt w a)) w"

text \<open>The methods of the planner. Each returns its result and the world it leaves.
  \<open>allItems\<close> is the reference that \<^verbatim>\<open>generatePlan\<close> passes down (its \<^verbatim>\<open>targetItems\<close>).\<close>

definition hasBetterDuplicateW :: "InventoryItem \<Rightarrow> nat \<Rightarrow> World \<Rightarrow> bool \<times> World" where
  "hasBetterDuplicateW it allItems w =
     (let p = plannerObject w;
          (duplicates, w1) = filterItems (\<lambda>i. itemHash i = itemHash it
                                  \<and> itemInstanceId i \<noteq> itemInstanceId it
                                  \<and> itemType i = Armor) allItems w
      in if length (itemsAt w1 duplicates) = 0 then (False, w1)
         else case scoreArmor (armorScorer p) it of
           None \<Rightarrow> (False, w1)
         | Some itemScore \<Rightarrow>
             (list_ex (\<lambda>dupe. case scoreArmor (armorScorer p) dupe of
                               None \<Rightarrow> False
                             | Some dupeScore \<Rightarrow> totalScore dupeScore > totalScore itemScore + 10)
               (itemsAt w1 duplicates), w1))"

text \<open>The score tiers of \<^verbatim>\<open>analyzeArmor\<close>; only the tier from 50 to 74 calls
  \<^verbatim>\<open>hasBetterDuplicate\<close>, which allocates.\<close>

definition armorByScoreW ::
  "InventoryItem \<Rightarrow> nat \<Rightarrow> string list \<Rightarrow> int \<Rightarrow> World \<Rightarrow> CleanupRecommendation \<times> World" where
  "armorByScoreW it allItems existingReasons sc w =
     (if sc \<ge> 75 then
        (\<lparr>item = it, action = KEEP,
          reason = join ''. ''
            (existingReasons @ [''Excellent armor score: '' @ showInt sc @ ''/100'']),
          score = Some sc, protectedBy = None\<rparr>, w)
      else if sc \<ge> 50 then
        (let reasons = existingReasons @ [''Decent armor score: '' @ showInt sc @ ''/100''];
             (hasBetterDupe, w1) = hasBetterDuplicateW it allItems w
         in if hasBetterDupe then
              (\<lparr>item = it, action = REVIEW,
                reason = join ''. '' (reasons @ [''Better duplicate exists'']),
                score = Some sc, protectedBy = None\<rparr>, w1)
            else
              (\<lparr>item = it, action = KEEP, reason = join ''. '' reasons,
                score = Some sc, protectedBy = None\<rparr>, w1))
      else if sc \<ge> 30 then
        (\<lparr>item = it, action = REVIEW,
          reason = join ''. ''
            (existingReasons @ [''Below average armor score: '' @ showInt sc @ ''/100'']),
          score = Some sc, protectedBy = None\<rparr>, w)
      else
        (\<lparr>item = it, action = JUNK,
          reason = join ''. ''
            (existingReasons @ [''Poor armor score: '' @ showInt sc @ ''/100'']),
          score = Some sc, protectedBy = None\<rparr>, w))"

definition analyzeArmorW ::
  "InventoryItem \<Rightarrow> nat \<Rightarrow> string list \<Rightarrow> World \<Rightarrow> CleanupRecommendation \<times> World" where
  "analyzeArmorW it allItems existingReasons w =
     (let rules = protectionRules (plannerObject w)
      in case scoreArmor (armorScorer (plannerObject w)) it of
        Some armorScore \<Rightarrow>
          (let sc = totalScore armorScore
           in case stats it of
                Some st \<Rightarrow>
                  if protectHighStatArmor rules \<and> total st \<ge> highStatThreshold rules then
                    (\<lparr>item = it, action = KEEP,
                      reason = ''High stat armor ('' @ showInt (total st) @ '' total)'',
                      score = Some sc,
                      protectedBy = Some [''High stats: '' @ showInt (total st) @ '' total'']\<rparr>,
                     w)
                  else armorByScoreW it allItems existingReasons sc w
              | None \<Rightarrow> armorByScoreW it allItems existingReasons sc w)
      | None \<Rightarrow>
          (\<lparr>item = it, action = REVIEW,
            reason = join ''. '' (existingReasons @ [''Unable to score (no stats)'']),
            score = None, protectedBy = None\<rparr>, w))"

text \<open>\<^verbatim>\<open>allCopies.sort(...)\<close> sorts \<^verbatim>\<open>allCopies\<close> in place, so \<^verbatim>\<open>sorted\<close> and \<^verbatim>\<open>allCopies\<close>
  are one array; \<^verbatim>\<open>duplicates\<close> is another one and keeps its order.\<close>

definition analyzeWeaponW ::
  "InventoryItem \<Rightarrow> nat \<Rightarrow> string list \<Rightarrow> World \<Rightarrow> CleanupRecommendation \<times> World" where
  "analyzeWeaponW it allItems existingReasons w =
     (let (duplicates, w1) = filterItems (\<lambda>i. itemHash i = itemHash it
                                  \<and> itemInstanceId i \<noteq> itemInstanceId it) allItems w
      in if length (itemsAt w1 duplicates) = 0 then
           (\<lparr>item = it, action = KEEP,
             reason = join ''. '' (existingReasons @ [''Only copy of this weapon'']),
             score = None, protectedBy = None\<rparr>, w1)
         else
           (let (allCopies, w2) = newItemArray (it # itemsAt w1 duplicates) w1;
                (sorted, w3) = sortItems weaponCompare allCopies w2;
                bestCopy = hd (itemsAt w3 sorted)
            in if itemInstanceId bestCopy = itemInstanceId it then
                 (\<lparr>item = it, action = KEEP,
                   reason = join ''. '' (existingReasons @
                     [''Best copy among '' @ showInt (int (length (itemsAt w3 allCopies))) @
                      '' duplicates'']),
                   score = None, protectedBy = None\<rparr>, w3)
               else
                 (\<lparr>item = it, action = JUNK,
                   reason = join ''. '' (existingReasons @
                     [''Duplicate ('' @ showInt (int (length (itemsAt w3 duplicates))) @
                      '' others exist)'', ''Not the best copy'']),
                   score = None, protectedBy = None\<rparr>, w3)))"

definition analyzeItemW :: "InventoryItem \<Rightarrow> nat \<Rightarrow> World \<Rightarrow> CleanupRecommendation \<times> World" where
  "analyzeItemW it allItems w =
     (let protected = protectionReasons (plannerObject w) it;
          reasons = tagReasons (plannerObject w) it
      in if length protected > 0 then
           (\<lparr>item = it, action = KEEP,
             reason = ''Protected: '' @ join '', '' protected,
             score = None, protectedBy = Some protected\<rparr>, w)
         else if itemType it = Armor then analyzeArmorW it allItems reasons w
         else analyzeWeaponW it allItems reasons w)"

text \<open>The loop \<^verbatim>\<open>for (const item of targetItems)\<close>: the array iterator reads the length
  and the element of the live array at every step. The result is \<open>None\<close> if the loop
  does not end.\<close>

partial_function (option) analyzeAllW :: "nat \<Rightarrow> nat \<Rightarrow> nat \<Rightarrow> World \<Rightarrow> World option" where
  "analyzeAllW i targetRef recsRef w =
     (if i < length (itemsAt w targetRef) then
        (case analyzeItemW (itemsAt w targetRef ! i) targetRef w of
           (rec, w1) \<Rightarrow>
             analyzeAllW (i + 1) targetRef recsRef (pushRec recsRef rec w1))
      else Some w)"

declare analyzeAllW.simps [code]

definition generatePlanW :: "nat \<Rightarrow> World \<Rightarrow> (CleanupPlanObject \<times> World) option" where
  "generatePlanW its w =
     (let p = plannerObject w;
          (target, w1) =
            filterItems (\<lambda>it. if onlyVault (config p) \<and> location it \<noteq> Vault then False
                              else itemType it = Weapon \<or> itemType it = Armor) its w;
          (recs, w2) = newRecArray [] w1
      in case analyzeAllW 0 target recs w2 of
           None \<Rightarrow> None
         | Some w3 \<Rightarrow>
             (let (sorted, w4) =
                    sortRecs (\<lambda>a b. actionOrder (action a) - actionOrder (action b)) recs w3;
                  total = length (recsAt w4 sorted);
                  (kept, w5) = filterRecs (\<lambda>r. action r = KEEP) sorted w4;
                  (reviewed, w6) = filterRecs (\<lambda>r. action r = REVIEW) sorted w5;
                  (junked, w7) = filterRecs (\<lambda>r. action r = JUNK) sorted w6;
                  (protected, w8) = filterRecs hasProtection sorted w7
              in Some (\<lparr>generatedAtOf = clock w8,
                         summaryOf =
                           \<lparr>totalAnalyzed = total,
                            keep = length (recsAt w8 kept),
                            review = length (recsAt w8 reviewed),
                            junk = length (recsAt w8 junked),
                            protectedItems = length (recsAt w8 protected)\<rparr>,
                         recommendationsRef = sorted\<rparr>, w8)))"


text \<open>\<open>extendsItems w w'\<close>: the world \<open>w'\<close> is \<open>w\<close> with item arrays allocated behind the
  existing ones and nothing else touched. \<open>extendsRecs w w'\<close>: the same, with arrays
  allocated on both heaps.\<close>

definition extendsItems :: "World \<Rightarrow> World \<Rightarrow> bool" where
  "extendsItems w w' \<longleftrightarrow>
     plannerObject w' = plannerObject w \<and> clock w' = clock w \<and> recArrays w' = recArrays w
     \<and> take (length (itemArrays w)) (itemArrays w') = itemArrays w"

definition extendsRecs :: "World \<Rightarrow> World \<Rightarrow> bool" where
  "extendsRecs w w' \<longleftrightarrow>
     plannerObject w' = plannerObject w \<and> clock w' = clock w
     \<and> take (length (itemArrays w)) (itemArrays w') = itemArrays w
     \<and> take (length (recArrays w)) (recArrays w') = recArrays w"

subsection \<open>Notions of the specification used in the statements\<close>

text \<open>The ranking of weapon copies in the words of the specification: \<open>a\<close> ranks
  strictly above \<open>b\<close> when it wins on masterwork, then lock state, then power level
  (each descending).\<close>

definition specOutranks :: "InventoryItem \<Rightarrow> InventoryItem \<Rightarrow> bool" where
  "specOutranks a b =
     ((isMasterworked a \<and> \<not> isMasterworked b) \<or>
      (isMasterworked a = isMasterworked b \<and>
        ((isLocked a \<and> \<not> isLocked b) \<or>
         (isLocked a = isLocked b \<and> powerLevel a > powerLevel b))))"

text \<open>The other candidates that share the definition identifier of \<open>it\<close>.\<close>

definition specCopies :: "InventoryItem \<Rightarrow> InventoryItem list \<Rightarrow> InventoryItem list" where
  "specCopies it candidates =
     filter (\<lambda>i. itemHash i = itemHash it \<and> itemInstanceId i \<noteq> itemInstanceId it) candidates"

text \<open>Some other armor candidate of the same definition scores more than 10 points above
  the score \<open>s\<close>.\<close>

definition specBetterDuplicate ::
  "CleanupPlanner \<Rightarrow> InventoryItem \<Rightarrow> int \<Rightarrow> InventoryItem list \<Rightarrow> bool" where
  "specBetterDuplicate p it s candidates =
     list_ex (\<lambda>d. itemType d = Armor \<and>
                 (case scoreArmor (armorScorer p) d of
                    None \<Rightarrow> False
                  | Some ds \<Rightarrow> totalScore ds > s + 10))
       (specCopies it candidates)"

text \<open>The high-stat protection threshold is met.\<close>

definition specHighStat :: "CleanupPlanner \<Rightarrow> InventoryItem \<Rightarrow> bool" where
  "specHighStat p it =
     (protectHighStatArmor (protectionRules p) \<and>
      (case stats it of
         None \<Rightarrow> False
       | Some st \<Rightarrow> total st \<ge> highStatThreshold (protectionRules p)))"

text \<open>The planner with the tag of one item removed from the build manifest.\<close>

definition removeTag :: "CleanupPlanner \<Rightarrow> string \<Rightarrow> CleanupPlanner" where
  "removeTag p ident =
     p\<lparr>dimParser :=
         \<lparr>backup = map_option (\<lambda>b. b\<lparr>tags := (tags b)(ident := None)\<rparr>)
                      (backup (dimParser p))\<rparr>\<rparr>"

text \<open>What the junk tag does to one recommendation: \<open>r\<close> is the recommendation with the
  tag, \<open>r'\<close> the one without.\<close>

definition specJunkTagEffect ::
  "string \<Rightarrow> CleanupRecommendation \<Rightarrow> CleanupRecommendation \<Rightarrow> bool" where
  "specJunkTagEffect ident r r' =
     (item r = item r' \<and> action r = action r' \<and> score r = score r' \<and>
      protectedBy r = protectedBy r' \<and>
      reason r = (if itemInstanceId (item r) = ident \<and> protectedBy r = None
                  then ''Tagged as junk in DIM. '' @ reason r' else reason r'))"

text \<open>Invariant of the map that \<open>collectGroups\<close> fills: every item stored under a key
  has that key as its hash and is not of category \<open>Other\<close>.\<close>

definition groupsOk :: "(int \<times> InventoryItem list) list \<Rightarrow> bool" where
  "groupsOk m = (\<forall>(k, g) \<in> set m. \<forall>i \<in> set g. itemHash i = k \<and> itemType i \<noteq> Other)"

subsection \<open>Example inventories\<close>

definition mkWeapon :: "string \<Rightarrow> int \<Rightarrow> int \<Rightarrow> bool \<Rightarrow> bool \<Rightarrow> InventoryItem" where
  "mkWeapon ident hash pl locked mw =
     \<lparr>itemInstanceId = ident, itemHash = hash, name = ''Item'',
      itemType = Weapon, tier = Legendary, location = Vault, characterId = None,
      isEquipped = False, isLocked = locked, isMasterworked = mw, powerLevel = pl,
      armorSlot = None, classType = None, stats = None, damageType = None,
      weaponType = None\<rparr>"

definition mkStats :: "int \<Rightarrow> int \<Rightarrow> int \<Rightarrow> int \<Rightarrow> int \<Rightarrow> int \<Rightarrow> ArmorStats" where
  "mkStats m r rc d i s =
     \<lparr>mobility = m, resilience = r, recovery = rc, discipline = d, intellect = i,
      strength = s, total = m + r + rc + d + i + s\<rparr>"

definition mkArmor :: "string \<Rightarrow> int \<Rightarrow> ArmorStats option \<Rightarrow> InventoryItem" where
  "mkArmor ident hash st =
     \<lparr>itemInstanceId = ident, itemHash = hash, name = ''Item'',
      itemType = Armor, tier = Legendary, location = Vault, characterId = None,
      isEquipped = False, isLocked = False, isMasterworked = False, powerLevel = 1800,
      armorSlot = Some Helmet, classType = Some Titan, stats = st, damageType = None,
      weaponType = None\<rparr>"

text \<open>Scenario A of the specification: Mobility 2, Resilience 20, Recovery 26,
  Discipline 15, Intellect 6, Strength 8.\<close>

definition scenarioA_stats :: ArmorStats where
  "scenarioA_stats = mkStats 2 20 26 15 6 8"

definition scenarioA :: InventoryItem where
  "scenarioA = mkArmor ''A'' 100 (Some scenarioA_stats)"

text \<open>An armor piece that scores 42 (Scenario E), and one with evenly spread stats.\<close>

definition scenarioE :: InventoryItem where
  "scenarioE = mkArmor ''E'' 200 (Some (mkStats 26 14 4 3 2 1))"

definition evenArmor :: InventoryItem where
  "evenArmor = mkArmor ''F'' 300 (Some (mkStats 10 10 10 10 10 10))"

text \<open>Scenario B: three copies of one weapon at power 1810, 1805 and 1800.\<close>

definition scenarioB :: "InventoryItem list" where
  "scenarioB =
     [mkWeapon ''B1'' 7 1810 False False, mkWeapon ''B2'' 7 1805 False False,
      mkWeapon ''B3'' 7 1800 False False]"

text \<open>Three copies of one weapon, two of them tied at the top; two tied copies; and two
  tied copies next to a locked one.\<close>

definition tiedTop :: "InventoryItem list" where
  "tiedTop =
     [mkWeapon ''T1'' 7 1810 False False, mkWeapon ''T2'' 7 1810 False False,
      mkWeapon ''T3'' 7 1800 False False]"

definition tiedPair :: "InventoryItem list" where
  "tiedPair = [mkWeapon ''P1'' 8 1800 False False, mkWeapon ''P2'' 8 1800 False False]"

definition tiedBesideLocked :: "InventoryItem list" where
  "tiedBesideLocked =
     [mkWeapon ''L1'' 9 1800 True False, mkWeapon ''L2'' 9 1800 False False,
      mkWeapon ''L3'' 9 1800 False False]"

text \<open>A planner with no backup loaded, and one whose backup tags the weapon \<open>W1\<close> as
  junk.\<close>

definition plainPlanner :: CleanupPlanner where
  "plainPlanner = newCleanupPlanner \<lparr>backup = None\<rparr>"

definition junkPlanner :: CleanupPlanner where
  "junkPlanner =
     newCleanupPlanner
       \<lparr>backup = Some \<lparr>loadouts = [], tags = [''W1'' \<mapsto> ''junk''], itemNotes = Map.empty\<rparr>\<rparr>"

definition junkTagged :: InventoryItem where
  "junkTagged = mkWeapon ''W1'' 11 1800 False False"

definition lockedWeapon :: InventoryItem where
  "lockedWeapon = mkWeapon ''K1'' 12 1800 True False"

text \<open>An inventory for the duplicate finder: two weapons of one definition, a third
  weapon of another.\<close>

definition mixedInventory :: "InventoryItem list" where
  "mixedInventory =
     [mkWeapon ''M1'' 7 1810 False False, mkWeapon ''M2'' 8 1810 False False,
      mkWeapon ''M3'' 7 1800 False False]"

text \<open>A world in which the planner without backup is about to be called on the three copies
  of scenario B, held in the one array of the heap.\<close>

definition scenarioBWorld :: World where
  "scenarioBWorld =
     \<lparr>clock = 0, plannerObject = plainPlanner, itemArrays = [scenarioB], recArrays = []\<rparr>"

section \<open>Evaluation and basic facts\<close>

lemma floor_rat_numeral [simp]:
  "\<lfloor>(numeral a / numeral b :: rat)\<rfloor> = numeral a div numeral b"
  using floor_divide_of_int_eq [of "numeral a" "numeral b", where ?'a = rat] by simp

lemmas customThresholds =
  minTotalStats_def goodTotalStats_def excellentTotalStats_def
  spikeThreshold_def superSpikeThreshold_def weakStatThreshold_def

subsection \<open>Rounding to doubles is monotone and idempotent\<close>

lemma pos_quot:
  assumes "0 < a"
  obtains p q where "quotient_of a = (p, q)" "0 < p" "0 < q" "a = of_int p / of_int q"
proof -
  obtain p q where pq: "quotient_of a = (p, q)" by (cases "quotient_of a")
  then have q: "0 < q" by (rule quotient_of_denom_pos)
  have a: "a = of_int p / of_int q" using pq by (rule quotient_of_div)
  with assms q have "0 < p" by (simp add: zero_less_divide_iff)
  show ?thesis by (rule that [OF pq \<open>0 < p\<close> q a])
qed

lemma pow2_less_iff: "(2::rat) powi m < 2 powi n \<longleftrightarrow> m < n"
proof
  assume "(2::rat) powi m < 2 powi n"
  show "m < n"
  proof (rule ccontr)
    assume "\<not> m < n"
    then have "n \<le> m" by simp
    then have "(2::rat) powi n \<le> 2 powi m" by (rule power_int_increasing) simp
    with \<open>(2::rat) powi m < 2 powi n\<close> show False by simp
  qed
next
  assume "m < n"
  then show "(2::rat) powi m < 2 powi n" by (rule power_int_strict_increasing) simp
qed

lemma pow2_le_iff: "(2::rat) powi m \<le> 2 powi n \<longleftrightarrow> m \<le> n"
  using pow2_less_iff [of n m] by (auto simp: not_less [symmetric])

lemma pow2_pos [simp]: "(0::rat) < 2 powi k"
  by (rule zero_less_power_int) simp

lemma of_int_pow2_bounds:
  assumes "1 \<le> b" and "(2::int) ^ nat (b - 1) \<le> n" and "n < 2 ^ nat b"
  shows "(2::rat) powi (b - 1) \<le> of_int n" and "of_int n < (2::rat) powi b"
proof -
  have "(of_int ((2::int) ^ nat (b - 1)) :: rat) \<le> of_int n"
    using assms(2) by (simp only: of_int_le_iff)
  then show "(2::rat) powi (b - 1) \<le> of_int n"
    using assms(1) by (simp add: power_int_def)
  have "(of_int n :: rat) < of_int ((2::int) ^ nat b)"
    using assms(3) by (simp only: of_int_less_iff)
  then show "of_int n < (2::rat) powi b"
    using assms(1) by (simp add: power_int_def)
qed

lemma ilog2_bounds:
  assumes "0 < a"
  shows "2 powi (ilog2 a) \<le> a \<and> a < 2 powi (ilog2 a + 1)"
proof -
  from assms obtain p q where pq: "quotient_of a = (p, q)" and p: "0 < p" and q: "0 < q"
    and a: "a = of_int p / of_int q" by (rule pos_quot)
  define bp where "bp = bitlen p"
  define bq where "bq = bitlen q"
  have bp1: "1 \<le> bp" and bq1: "1 \<le> bq" using p q by (auto simp: bp_def bq_def bitlen_alt_def)
  from bitlen_bounds [OF p] have "(2::int) ^ nat (bp - 1) \<le> p" "p < 2 ^ nat bp"
    by (simp_all add: bp_def)
  then have P: "(2::rat) powi (bp - 1) \<le> of_int p" "of_int p < (2::rat) powi bp"
    using bp1 by (rule of_int_pow2_bounds [rotated])+
  from bitlen_bounds [OF q] have "(2::int) ^ nat (bq - 1) \<le> q" "q < 2 ^ nat bq"
    by (simp_all add: bq_def)
  then have Q: "(2::rat) powi (bq - 1) \<le> of_int q" "of_int q < (2::rat) powi bq"
    using bq1 by (rule of_int_pow2_bounds [rotated])+
  have qpos: "(0::rat) < of_int q" using q by simp
  have up: "a < 2 powi (bp - bq + 1)"
  proof -
    have "of_int p < (2::rat) powi bp" by (rule P)
    also have "\<dots> = 2 powi (bp - bq + 1) * 2 powi (bq - 1)"
      by (simp flip: power_int_add)
    also have "\<dots> \<le> 2 powi (bp - bq + 1) * of_int q"
      using Q(1) by (simp add: mult_left_mono)
    finally show ?thesis using qpos by (simp add: a pos_divide_less_eq)
  qed
  have lo: "2 powi (bp - bq - 1) \<le> a"
  proof -
    have "2 powi (bp - bq - 1) * of_int q \<le> 2 powi (bp - bq - 1) * (2::rat) powi bq"
      using Q(2) by (simp add: mult_left_mono)
    also have "\<dots> = 2 powi (bp - 1)" by (simp flip: power_int_add)
    also have "\<dots> \<le> of_int p" by (rule P)
    finally show ?thesis using qpos by (simp add: a pos_le_divide_eq)
  qed
  show ?thesis
    using up lo by (auto simp: ilog2_def pq Let_def simp flip: bp_def bq_def)
qed

lemma ilog2_unique:
  assumes "0 < a" and "2 powi k \<le> a" and "a < 2 powi (k + 1)"
  shows "ilog2 a = k"
proof -
  from ilog2_bounds [OF assms(1)]
  have lo: "2 powi (ilog2 a) \<le> a" and up: "a < 2 powi (ilog2 a + 1)" by simp_all
  have "(2::rat) powi k < 2 powi (ilog2 a + 1)" using assms(2) up by simp
  then have 1: "k < ilog2 a + 1" by (simp add: pow2_less_iff)
  have "(2::rat) powi (ilog2 a) < 2 powi (k + 1)" using lo assms(3) by simp
  then have 2: "ilog2 a < k + 1" by (simp add: pow2_less_iff)
  from 1 2 show ?thesis by simp
qed

lemma ilog2_mono:
  assumes "0 < a" and "a \<le> b"
  shows "ilog2 a \<le> ilog2 b"
proof -
  have b: "0 < b" using assms by simp
  have "(2::rat) powi (ilog2 a) \<le> a" using ilog2_bounds [OF assms(1)] by simp
  also have "\<dots> \<le> b" by fact
  also have "\<dots> < 2 powi (ilog2 b + 1)" using ilog2_bounds [OF b] by simp
  finally have "ilog2 a < ilog2 b + 1" by (simp add: pow2_less_iff)
  then show ?thesis by simp
qed


lemma roundEven_of_int [simp]: "roundEven (of_int n) = n"
  by (simp add: roundEven_def)

lemma roundEven_bounds: "of_int (roundEven x) \<le> x + 1 / 2" "x - 1 / 2 \<le> of_int (roundEven x)"
  unfolding roundEven_def Let_def by (auto; linarith)+

lemma roundEven_mono:
  assumes "x \<le> y"
  shows "roundEven x \<le> roundEven y"
proof -
  have fl: "\<lfloor>x\<rfloor> \<le> \<lfloor>y\<rfloor>" using assms by (rule floor_mono)
  show ?thesis
  proof (cases "\<lfloor>x\<rfloor> = \<lfloor>y\<rfloor>")
    case True
    with assms show ?thesis by (auto simp: roundEven_def Let_def)
  next
    case False
    with fl have "\<lfloor>x\<rfloor> + 1 \<le> \<lfloor>y\<rfloor>" by simp
    moreover have "roundEven x \<le> \<lfloor>x\<rfloor> + 1" by (auto simp: roundEven_def Let_def)
    moreover have "\<lfloor>y\<rfloor> \<le> roundEven y" by (auto simp: roundEven_def Let_def)
    ultimately show ?thesis by simp
  qed
qed

lemma roundDouble_0 [simp]: "roundDouble 0 = 0"
  by (simp add: roundDouble_def)

lemma roundDouble_minus: "roundDouble (- x) = - roundDouble x"
  by (simp add: roundDouble_def Let_def)

lemma roundDouble_pos:
  assumes "0 < x"
  shows "roundDouble x = of_int (roundEven (x / 2 powi (ilog2 x - 52))) * 2 powi (ilog2 x - 52)"
  using assms by (simp add: roundDouble_def Let_def)

lemma scaled_range:
  assumes "0 < x"
  shows "2 ^ 52 \<le> x / 2 powi (ilog2 x - 52)" and "x / 2 powi (ilog2 x - 52) < 2 ^ 53"
proof -
  from ilog2_bounds [OF assms]
  have lo: "2 powi (ilog2 x) \<le> x" and up: "x < 2 powi (ilog2 x + 1)" by simp_all
  have e1: "(2::rat) powi (ilog2 x) = 2 ^ 52 * 2 powi (ilog2 x - 52)"
    using power_int_add [of "2::rat" 52 "ilog2 x - 52"] by simp
  have e2: "(2::rat) powi (ilog2 x + 1) = 2 ^ 53 * 2 powi (ilog2 x - 52)"
    using power_int_add [of "2::rat" 53 "ilog2 x - 52"] by (simp add: add.commute)
  show "2 ^ 52 \<le> x / 2 powi (ilog2 x - 52)"
    using lo unfolding e1 by (simp add: pos_le_divide_eq)
  show "x / 2 powi (ilog2 x - 52) < 2 ^ 53"
    using up unfolding e2 by (simp add: pos_divide_less_eq)
qed

lemma rounded_range:
  assumes "0 < x"
  shows "2 ^ 52 \<le> roundEven (x / 2 powi (ilog2 x - 52))"
    and "roundEven (x / 2 powi (ilog2 x - 52)) \<le> 2 ^ 53"
proof -
  have "roundEven (of_int (2 ^ 52)) \<le> roundEven (x / 2 powi (ilog2 x - 52))"
    by (rule roundEven_mono) (use scaled_range(1) [OF assms] in simp)
  then show "2 ^ 52 \<le> roundEven (x / 2 powi (ilog2 x - 52))"
    unfolding roundEven_of_int .
  have "roundEven (x / 2 powi (ilog2 x - 52)) \<le> roundEven (of_int (2 ^ 53))"
    by (rule roundEven_mono) (use scaled_range(2) [OF assms] in simp)
  then show "roundEven (x / 2 powi (ilog2 x - 52)) \<le> 2 ^ 53"
    unfolding roundEven_of_int .
qed

lemma roundDouble_pos_bounds:
  assumes "0 < x"
  shows "2 powi (ilog2 x) \<le> roundDouble x" and "roundDouble x \<le> 2 powi (ilog2 x + 1)"
proof -
  let ?u = "(2::rat) powi (ilog2 x - 52)"
  let ?n = "roundEven (x / ?u)"
  have e1: "(2::rat) powi (ilog2 x) = 2 ^ 52 * ?u"
    using power_int_add [of "2::rat" 52 "ilog2 x - 52"] by simp
  have e2: "(2::rat) powi (ilog2 x + 1) = 2 ^ 53 * ?u"
    using power_int_add [of "2::rat" 53 "ilog2 x - 52"] by (simp add: add.commute)
  have "(of_int (2 ^ 52) :: rat) \<le> of_int ?n"
    using rounded_range(1) [OF assms] by (simp only: of_int_le_iff)
  then have "2 ^ 52 * ?u \<le> of_int ?n * ?u" by (simp add: mult_right_mono)
  then show "2 powi (ilog2 x) \<le> roundDouble x"
    by (simp only: e1 roundDouble_pos [OF assms])
  have "(of_int ?n :: rat) \<le> of_int (2 ^ 53)"
    using rounded_range(2) [OF assms] by (simp only: of_int_le_iff)
  then have "of_int ?n * ?u \<le> 2 ^ 53 * ?u" by (simp add: mult_right_mono)
  then show "roundDouble x \<le> 2 powi (ilog2 x + 1)"
    by (simp only: e2 roundDouble_pos [OF assms])
qed

lemma roundDouble_pos_pos: "0 < x \<Longrightarrow> 0 < roundDouble x"
  using roundDouble_pos_bounds(1) [of x] pow2_pos [of "ilog2 x"] by linarith

lemma roundDouble_mono_pos:
  assumes "0 < x" and "x \<le> y"
  shows "roundDouble x \<le> roundDouble y"
proof -
  have y: "0 < y" using assms by simp
  have le: "ilog2 x \<le> ilog2 y" using assms by (rule ilog2_mono)
  show ?thesis
  proof (cases "ilog2 x = ilog2 y")
    case True
    have "x / 2 powi (ilog2 y - 52) \<le> y / 2 powi (ilog2 y - 52)"
      using assms(2) by (simp add: divide_right_mono)
    then have "roundEven (x / 2 powi (ilog2 y - 52)) \<le> roundEven (y / 2 powi (ilog2 y - 52))"
      by (rule roundEven_mono)
    then have "(of_int (roundEven (x / 2 powi (ilog2 y - 52))) :: rat)
               \<le> of_int (roundEven (y / 2 powi (ilog2 y - 52)))"
      by (simp only: of_int_le_iff)
    then show ?thesis
      by (simp add: roundDouble_pos [OF assms(1)] roundDouble_pos [OF y] True mult_right_mono)
  next
    case False
    with le have "ilog2 x + 1 \<le> ilog2 y" by simp
    then have "(2::rat) powi (ilog2 x + 1) \<le> 2 powi (ilog2 y)" by (simp only: pow2_le_iff)
    with roundDouble_pos_bounds(2) [OF assms(1)] roundDouble_pos_bounds(1) [OF y]
    show ?thesis by linarith
  qed
qed

lemma roundDouble_mono:
  assumes "x \<le> y"
  shows "roundDouble x \<le> roundDouble y"
proof -
  consider "0 < x" | "x = 0" | "x < 0" "0 \<le> y" | "x < 0" "y < 0" by linarith
  then show ?thesis
  proof cases
    case 1
    then show ?thesis using assms by (rule roundDouble_mono_pos)
  next
    case 2
    show ?thesis
    proof (cases "y = 0")
      case True
      with 2 show ?thesis by simp
    next
      case False
      with 2 assms have "0 < y" by simp
      then show ?thesis using 2 roundDouble_pos_pos [of y] by simp
    qed
  next
    case 3
    have "roundDouble x < 0"
      using roundDouble_pos_pos [of "- x"] 3(1) by (simp add: roundDouble_minus)
    moreover have "0 \<le> roundDouble y"
      using roundDouble_pos_pos [of y] 3(2) by (cases "y = 0") auto
    ultimately show ?thesis by simp
  next
    case 4
    have "roundDouble (- y) \<le> roundDouble (- x)"
      by (rule roundDouble_mono_pos) (use 4 assms in simp_all)
    then show ?thesis by (simp add: roundDouble_minus)
  qed
qed

lemma roundDouble_idem_pos:
  assumes "0 < x"
  shows "roundDouble (roundDouble x) = roundDouble x"
proof -
  define e where "e = ilog2 x"
  define u where "u = (2::rat) powi (e - 52)"
  define n where "n = roundEven (x / u)"
  have u: "0 < u" by (simp add: u_def)
  have m: "roundDouble x = of_int n * u"
    by (simp add: roundDouble_pos [OF assms] n_def u_def e_def)
  have mpos: "0 < of_int n * u" using roundDouble_pos_pos [OF assms] m by simp
  have n52: "2 ^ 52 \<le> n" and n53: "n \<le> 2 ^ 53"
    using rounded_range [OF assms] by (simp_all add: n_def u_def e_def)
  have e1: "(2::rat) powi e = 2 ^ 52 * u"
    using power_int_add [of "2::rat" 52 "e - 52"] by (simp add: u_def)
  have e2: "(2::rat) powi (e + 1) = 2 ^ 53 * u"
    using power_int_add [of "2::rat" 53 "e - 52"] by (simp add: u_def add.commute)
  show ?thesis
  proof (cases "n = 2 ^ 53")
    case True
    have val: "of_int n * u = 2 powi (e + 1)" by (simp add: True e2)
    have "ilog2 (2 powi (e + 1)) = e + 1"
      by (rule ilog2_unique) (simp_all add: pow2_less_iff)
    moreover have "(2::rat) powi (e + 1) / 2 powi (e + 1 - 52) = of_int (2 ^ 52)"
      using power_int_add [of "2::rat" 52 "e + 1 - 52"] by (simp add: add.commute)
    ultimately have "roundDouble (2 powi (e + 1)) = of_int (2 ^ 52) * 2 powi (e + 1 - 52)"
      by (simp only: roundDouble_pos [OF pow2_pos] roundEven_of_int)
    also have "\<dots> = 2 powi (e + 1)"
      using power_int_add [of "2::rat" 52 "e + 1 - 52"] by (simp add: add.commute)
    finally show ?thesis by (simp only: m val)
  next
    case False
    with n53 have "n < 2 ^ 53" by simp
    then have "(of_int n :: rat) < of_int (2 ^ 53)" by (simp only: of_int_less_iff)
    then have up: "of_int n * u < 2 powi (e + 1)" using u by (simp add: e2)
    have "(of_int (2 ^ 52) :: rat) \<le> of_int n" using n52 by (simp only: of_int_le_iff)
    then have lo: "2 powi e \<le> of_int n * u" using u by (simp add: e1)
    have il: "ilog2 (of_int n * u) = e" using mpos lo up by (rule ilog2_unique)
    have "of_int n * u / 2 powi (e - 52) = of_int n" using u by (simp add: u_def)
    then have "roundDouble (of_int n * u) = of_int n * 2 powi (e - 52)"
      by (simp only: roundDouble_pos [OF mpos] il roundEven_of_int)
    then show ?thesis by (simp add: m u_def)
  qed
qed

lemma roundDouble_idem [simp]: "roundDouble (roundDouble x) = roundDouble x"
proof -
  consider "0 < x" | "x = 0" | "x < 0" by linarith
  then show ?thesis
  proof cases
    case 1
    then show ?thesis by (rule roundDouble_idem_pos)
  next
    case 2
    then show ?thesis by simp
  next
    case 3
    then have "roundDouble (roundDouble (- x)) = roundDouble (- x)"
      by (intro roundDouble_idem_pos) simp
    then show ?thesis by (simp add: roundDouble_minus)
  qed
qed

subsection \<open>Scores\<close>

lemma scoreArmor_total:
  "itemType it = Armor \<Longrightarrow> stats it = Some st \<Longrightarrow>
   map_option totalScore (scoreArmor scr it) = Some (calculateTotalScore st (analyzeStats st))"
  by (simp add: scoreArmor_def Let_def split: prod.splits)

lemma scoreArmor_None_iff:
  "scoreArmor scr it = None \<longleftrightarrow> itemType it \<noteq> Armor \<or> stats it = None"
  by (simp add: scoreArmor_def Let_def split: prod.splits option.splits)

text \<open>Rounding at every operation is visible in the result: on the stats 26/9/8/9/5/4 the
  profile \<^verbatim>\<open>pvp_hunter\<close> scores 12.1, as the source computes with doubles, where the exact
  weighted average (12.15) would round to 12.2.\<close>

lemma calculateProfileScore_example:
  "fst (hd STAT_PROFILES) = ''pvp_hunter''"
  "calculateProfileScore (mkStats 26 9 8 9 5 4) (snd (hd STAT_PROFILES)) = roundDouble (121 / 10)"
  "roundDouble (121 / 10) \<noteq> roundDouble (122 / 10)"
  "\<lfloor>(26 * (3 / 2) + 9 * (6 / 5) + 8 * (13 / 10) + 9 * (4 / 5) + 5 * (7 / 10) + 4 * (1 / 2))
       / (3 / 2 + 6 / 5 + 13 / 10 + 4 / 5 + 7 / 10 + 1 / 2) * 10 + 1 / 2 :: rat\<rfloor> = 122"
  by code_simp+

lemma calculateProfileScore_double:
  "roundDouble (calculateProfileScore st profile) = calculateProfileScore st profile"
  by (simp add: calculateProfileScore_def divD_def Let_def)

lemma scoreProfiles_double:
  "roundDouble b = b \<Longrightarrow>
   roundDouble (snd (snd (scoreProfiles st ps (scores, best, b))))
     = snd (snd (scoreProfiles st ps (scores, best, b)))"
proof (induction ps arbitrary: scores best b)
  case Nil
  then show ?case by simp
next
  case (Cons entry ps)
  obtain ident profile where entry: "entry = (ident, profile)" by (cases entry)
  show ?case
    unfolding entry
    by (simp add: Let_def Cons.IH Cons.prems calculateProfileScore_double)
qed

lemma bestProfileScore_double:
  assumes "scoreArmor scr it = Some sc"
  shows "roundDouble (bestProfileScore sc) = bestProfileScore sc"
proof -
  from assms obtain st where st: "stats it = Some st" and armor: "itemType it = Armor"
    by (auto simp: scoreArmor_def split: if_splits option.splits)
  have "bestProfileScore sc = snd (snd (scoreProfiles st (profiles scr) ([], '''', 0)))"
    using assms by (auto simp: scoreArmor_def st armor Let_def split: prod.splits)
  moreover have "roundDouble (snd (snd (scoreProfiles st (profiles scr) ([], '''', 0))))
      = snd (snd (scoreProfiles st (profiles scr) ([], '''', 0)))"
    by (rule scoreProfiles_double) simp
  ultimately show ?thesis by simp
qed

text \<open>Two doubles cannot each exceed the other by the margin of 2.\<close>

lemma no_mutual_margin:
  assumes "roundDouble p = p" and "roundDouble q = q"
  shows "\<not> (addD q 2 < p \<and> addD p 2 < q)"
proof
  assume both: "addD q 2 < p \<and> addD p 2 < q"
  have "roundDouble p \<le> roundDouble (p + 2)" by (rule roundDouble_mono) simp
  then have p: "p \<le> addD p 2" by (simp add: addD_def assms(1))
  have "roundDouble q \<le> roundDouble (q + 2)" by (rule roundDouble_mono) simp
  then have q: "q \<le> addD q 2" by (simp add: addD_def assms(2))
  from both p q show False by linarith
qed

subsection \<open>Scenario A, step by step\<close>

lemma scenarioA_analysis:
  "analyzeStats scenarioA_stats =
     \<lparr>totalStats = 77, hasSpike = True, hasSuperSpike = True,
      topStats = [(''Recovery'', 26), (''Resilience'', 20)],
      weakStats = [(''Mobility'', 2), (''Intellect'', 6)],
      isWellDistributed = False, artificeSlot = False\<rparr>"
  by (simp add: analyzeStats_def statValues_def scenarioA_stats_def mkStats_def customThresholds)

lemma scenarioA_total: "total scenarioA_stats = 77"
  by (simp add: scenarioA_stats_def mkStats_def)

lemma scenarioA_parts:
  "baseScore scenarioA_stats = 40"
  "spikeBonus (analyzeStats scenarioA_stats) = 30"
  "distributionBonus (analyzeStats scenarioA_stats) = 0"
  "weakPenalty (analyzeStats scenarioA_stats) = 10"
  "topStatBonus (analyzeStats scenarioA_stats) = 15"
  by (simp_all add: scenarioA_analysis scenarioA_total baseScore_def spikeBonus_def
      distributionBonus_def weakPenalty_def topStatSum_def topStatBonus_def customThresholds)

lemma scenarioA_score: "calculateTotalScore scenarioA_stats (analyzeStats scenarioA_stats) = 75"
  by code_simp

lemma scenarioA_item: "itemType scenarioA = Armor" "stats scenarioA = Some scenarioA_stats"
  by (simp_all add: scenarioA_def mkArmor_def)

subsection \<open>Stable sorting\<close>

lemma set_insertBy: "set (insertBy cmp x ys) = insert x (set ys)"
  by (induction ys) auto

lemma set_jsSort: "set (jsSort cmp xs) = set xs"
  by (induction xs) (auto simp: set_insertBy)

lemma length_insertBy: "length (insertBy cmp x ys) = Suc (length ys)"
  by (induction ys) auto

lemma length_jsSort: "length (jsSort cmp xs) = length xs"
  by (induction xs) (auto simp: length_insertBy)

lemma hd_insertBy:
  "hd (insertBy cmp x ys) = (if ys = [] \<or> cmp x (hd ys) \<le> 0 then x else hd ys)"
  by (cases ys) auto

lemma sorted_insertBy:
  assumes tot: "\<And>a b. cmp a b \<le> 0 \<or> cmp b a \<le> 0"
      and tr: "\<And>a b c. cmp a b \<le> 0 \<Longrightarrow> cmp b c \<le> 0 \<Longrightarrow> cmp a c \<le> 0"
      and srt: "sorted_wrt (\<lambda>a b. cmp a b \<le> 0) ys"
  shows "sorted_wrt (\<lambda>a b. cmp a b \<le> 0) (insertBy cmp x ys)"
  using srt
proof (induction ys)
  case Nil
  then show ?case by simp
next
  case (Cons y ys)
  show ?case
  proof (cases "cmp x y \<le> 0")
    case True
    with Cons.prems tr show ?thesis by auto
  next
    case False
    with tot have "cmp y x \<le> 0" by blast
    with False Cons show ?thesis by (auto simp: set_insertBy)
  qed
qed

lemma sorted_jsSort:
  assumes tot: "\<And>a b. cmp a b \<le> 0 \<or> cmp b a \<le> 0"
      and tr: "\<And>a b c. cmp a b \<le> 0 \<Longrightarrow> cmp b c \<le> 0 \<Longrightarrow> cmp a c \<le> 0"
  shows "sorted_wrt (\<lambda>a b. cmp a b \<le> 0) (jsSort cmp xs)"
  by (induction xs) (auto intro: sorted_insertBy [OF tot tr])

lemma hd_jsSort_best:
  assumes tot: "\<And>a b. cmp a b \<le> 0 \<or> cmp b a \<le> 0"
      and tr: "\<And>a b c. cmp a b \<le> 0 \<Longrightarrow> cmp b c \<le> 0 \<Longrightarrow> cmp a c \<le> 0"
      and mem: "y \<in> set xs"
  shows "cmp (hd (jsSort cmp xs)) y \<le> 0"
proof -
  from mem have "y \<in> set (jsSort cmp xs)" by (simp add: set_jsSort)
  then obtain z zs where zs: "jsSort cmp xs = z # zs" by (cases "jsSort cmp xs") auto
  have "sorted_wrt (\<lambda>a b. cmp a b \<le> 0) (jsSort cmp xs)"
    by (rule sorted_jsSort) (use tot tr in blast)+
  then have "sorted_wrt (\<lambda>a b. cmp a b \<le> 0) (z # zs)"
    using zs by simp
  moreover have "y = z \<or> y \<in> set zs" using \<open>y \<in> set (jsSort cmp xs)\<close> zs by simp
  moreover have "cmp z z \<le> 0" using tot [of z z] by simp
  ultimately show ?thesis using zs by auto
qed

lemma insertBy_rel:
  assumes key: "\<And>a b a' b'. R a a' \<Longrightarrow> R b b' \<Longrightarrow> cmp a b = cmp' a' b'"
      and "R x y" and "list_all2 R xs ys"
  shows "list_all2 R (insertBy cmp x xs) (insertBy cmp' y ys)"
  using assms(3,2)
proof (induction rule: list_all2_induct)
  case Nil
  then show ?case by simp
next
  case (Cons a as b bs)
  from key [OF \<open>R x y\<close> \<open>R a b\<close>] Cons show ?case by auto
qed

lemma jsSort_rel:
  assumes key: "\<And>a b a' b'. R a a' \<Longrightarrow> R b b' \<Longrightarrow> cmp a b = cmp' a' b'"
      and "list_all2 R xs ys"
  shows "list_all2 R (jsSort cmp xs) (jsSort cmp' ys)"
  using assms(2)
  by (induction rule: list_all2_induct) (auto intro: insertBy_rel [OF key])

subsection \<open>The weapon ranking\<close>

lemma weaponCompare_le_iff: "weaponCompare a b \<le> 0 \<longleftrightarrow> \<not> specOutranks b a"
  by (auto simp: weaponCompare_def specOutranks_def)

lemma weaponCompare_total: "weaponCompare a b \<le> 0 \<or> weaponCompare b a \<le> 0"
  by (auto simp: weaponCompare_def)

lemma weaponCompare_trans:
  "weaponCompare a b \<le> 0 \<Longrightarrow> weaponCompare b c \<le> 0 \<Longrightarrow> weaponCompare a c \<le> 0"
  by (auto simp: weaponCompare_def split: if_splits)

lemma bestCopy_is_item_iff:
  assumes ids: "\<forall>d \<in> set dups. itemInstanceId d \<noteq> itemInstanceId it" and ne: "dups \<noteq> []"
  shows "itemInstanceId (hd (jsSort weaponCompare (it # dups))) = itemInstanceId it
         \<longleftrightarrow> (\<forall>d \<in> set dups. \<not> specOutranks d it)"
proof -
  let ?s = "jsSort weaponCompare dups"
  from ne have sne: "?s \<noteq> []" using length_jsSort [of weaponCompare dups] by auto
  then have hmem: "hd ?s \<in> set dups" using set_jsSort [of weaponCompare dups] hd_in_set by blast
  have best: "\<And>d. d \<in> set dups \<Longrightarrow> weaponCompare (hd ?s) d \<le> 0"
    by (rule hd_jsSort_best [OF weaponCompare_total weaponCompare_trans])
  have "itemInstanceId (hd (jsSort weaponCompare (it # dups))) = itemInstanceId it
        \<longleftrightarrow> weaponCompare it (hd ?s) \<le> 0"
    using sne hmem ids by (auto simp: hd_insertBy)
  also have "\<dots> \<longleftrightarrow> (\<forall>d \<in> set dups. weaponCompare it d \<le> 0)"
    using hmem best weaponCompare_trans by blast
  finally show ?thesis by (simp add: weaponCompare_le_iff)
qed

subsection \<open>Recommendations of the planner\<close>

lemma item_analyzeArmor: "item (analyzeArmor p it all rs) = it"
  by (simp add: analyzeArmor_def Let_def split: option.splits)

lemma item_analyzeWeapon: "item (analyzeWeapon p it all rs) = it"
  by (simp add: analyzeWeapon_def Let_def)

lemma item_analyzeItem: "item (analyzeItem p it all) = it"
  by (simp add: analyzeItem_def Let_def item_analyzeArmor item_analyzeWeapon)

lemma recommendations_generatePlan:
  "recommendations (generatePlan p now its) =
     jsSort (\<lambda>a b. actionOrder (action a) - actionOrder (action b))
       (map (\<lambda>it. analyzeItem p it (targetItems p its)) (targetItems p its))"
  by (simp add: generatePlan_def Let_def)

lemma recommendation_origin:
  assumes "r \<in> set (recommendations (generatePlan p now its))"
  shows "item r \<in> set (targetItems p its) \<and> r = analyzeItem p (item r) (targetItems p its)"
  using assms by (auto simp: generatePlan_def Let_def set_jsSort item_analyzeItem)

lemma analyzeItem_unprotected:
  "protectionReasons p it = [] \<Longrightarrow>
   analyzeItem p it all =
     (if itemType it = Armor then analyzeArmor p it all (tagReasons p it)
      else analyzeWeapon p it all (tagReasons p it))"
  by (simp add: analyzeItem_def)

lemma analyzeItem_protected:
  "protectionReasons p it \<noteq> [] \<Longrightarrow>
   analyzeItem p it all =
     \<lparr>item = it, action = KEEP, reason = ''Protected: '' @ join '', '' (protectionReasons p it),
      score = None, protectedBy = Some (protectionReasons p it)\<rparr>"
  by (simp add: analyzeItem_def Let_def)

lemma hasProtection_analyzeArmor:
  "hasProtection (analyzeArmor p it all rs) \<Longrightarrow> action (analyzeArmor p it all rs) = KEEP"
  by (simp add: analyzeArmor_def hasProtection_def Let_def split: option.splits if_splits)

lemma hasProtection_analyzeWeapon: "\<not> hasProtection (analyzeWeapon p it all rs)"
  by (simp add: analyzeWeapon_def hasProtection_def Let_def)

lemma hasProtection_analyzeItem:
  "hasProtection (analyzeItem p it all) \<Longrightarrow> action (analyzeItem p it all) = KEEP"
  by (cases "protectionReasons p it = []")
     (auto simp: analyzeItem_unprotected analyzeItem_protected
        hasProtection_analyzeArmor hasProtection_analyzeWeapon)

lemma analyzeWeapon_only_copy:
  "specCopies it all = [] \<Longrightarrow>
   analyzeWeapon p it all rs =
     \<lparr>item = it, action = KEEP, reason = join ''. '' (rs @ [''Only copy of this weapon'']),
      score = None, protectedBy = None\<rparr>"
  by (simp add: analyzeWeapon_def specCopies_def)

lemma specCopies_ids: "\<forall>d \<in> set (specCopies it all). itemInstanceId d \<noteq> itemInstanceId it"
  by (simp add: specCopies_def)

lemma analyzeWeapon_best:
  assumes "specCopies it all \<noteq> []" and "\<forall>d \<in> set (specCopies it all). \<not> specOutranks d it"
  shows "analyzeWeapon p it all rs =
     \<lparr>item = it, action = KEEP,
      reason = join ''. '' (rs @
        [''Best copy among '' @ showInt (int (length (specCopies it all)) + 1) @ '' duplicates'']),
      score = None, protectedBy = None\<rparr>"
proof -
  have "itemInstanceId (hd (jsSort weaponCompare (it # specCopies it all))) = itemInstanceId it"
    using bestCopy_is_item_iff [OF specCopies_ids assms(1)] assms(2) by simp
  then show ?thesis
    using assms(1) by (simp add: analyzeWeapon_def Let_def flip: specCopies_def) (simp add: add.commute)
qed

lemma analyzeWeapon_not_best:
  assumes "\<exists>d \<in> set (specCopies it all). specOutranks d it"
  shows "analyzeWeapon p it all rs =
     \<lparr>item = it, action = JUNK,
      reason = join ''. '' (rs @
        [''Duplicate ('' @ showInt (int (length (specCopies it all))) @ '' others exist)'',
         ''Not the best copy'']),
      score = None, protectedBy = None\<rparr>"
proof -
  from assms have ne: "specCopies it all \<noteq> []" by auto
  have "itemInstanceId (hd (jsSort weaponCompare (it # specCopies it all))) \<noteq> itemInstanceId it"
    using bestCopy_is_item_iff [OF specCopies_ids ne] assms by simp
  then show ?thesis
    using ne by (simp add: analyzeWeapon_def Let_def flip: specCopies_def)
qed

lemma hasBetterDuplicate_iff:
  "scoreArmor (armorScorer p) it = Some sc \<Longrightarrow>
   hasBetterDuplicate p it all = specBetterDuplicate p it (totalScore sc) all"
  by (auto simp: hasBetterDuplicate_def specBetterDuplicate_def specCopies_def list_ex_iff
      Let_def filter_empty_conv split: option.splits)

lemma analyzeArmor_unscorable:
  "scoreArmor (armorScorer p) it = None \<Longrightarrow> action (analyzeArmor p it all rs) = REVIEW"
  by (simp add: analyzeArmor_def)

lemma analyzeArmor_tiers:
  assumes sc: "scoreArmor (armorScorer p) it = Some sc" and hs: "\<not> specHighStat p it"
  shows "75 \<le> totalScore sc \<Longrightarrow> action (analyzeArmor p it all rs) = KEEP"
    and "50 \<le> totalScore sc \<Longrightarrow> totalScore sc \<le> 74 \<Longrightarrow>
         action (analyzeArmor p it all rs) =
           (if specBetterDuplicate p it (totalScore sc) all then REVIEW else KEEP)"
    and "30 \<le> totalScore sc \<Longrightarrow> totalScore sc \<le> 49 \<Longrightarrow>
         action (analyzeArmor p it all rs) = REVIEW \<and>
         reason (analyzeArmor p it all rs) =
           join ''. '' (rs @ [''Below average armor score: '' @ showInt (totalScore sc) @ ''/100''])"
    and "totalScore sc < 30 \<Longrightarrow> action (analyzeArmor p it all rs) = JUNK"
proof -
  have nohigh: "\<And>st. stats it = Some st \<Longrightarrow>
      \<not> (protectHighStatArmor (protectionRules p) \<and> highStatThreshold (protectionRules p) \<le> total st)"
    using hs by (simp add: specHighStat_def)
  show "75 \<le> totalScore sc \<Longrightarrow> action (analyzeArmor p it all rs) = KEEP"
    by (cases "stats it") (simp_all add: analyzeArmor_def sc Let_def nohigh)
  show "50 \<le> totalScore sc \<Longrightarrow> totalScore sc \<le> 74 \<Longrightarrow>
         action (analyzeArmor p it all rs) =
           (if specBetterDuplicate p it (totalScore sc) all then REVIEW else KEEP)"
    by (cases "stats it")
       (simp_all add: analyzeArmor_def sc Let_def nohigh hasBetterDuplicate_iff [OF sc])
  show "30 \<le> totalScore sc \<Longrightarrow> totalScore sc \<le> 49 \<Longrightarrow>
         action (analyzeArmor p it all rs) = REVIEW \<and>
         reason (analyzeArmor p it all rs) =
           join ''. '' (rs @ [''Below average armor score: '' @ showInt (totalScore sc) @ ''/100''])"
    by (cases "stats it") (simp_all add: analyzeArmor_def sc Let_def nohigh)
  show "totalScore sc < 30 \<Longrightarrow> action (analyzeArmor p it all rs) = JUNK"
    by (cases "stats it") (simp_all add: analyzeArmor_def sc Let_def nohigh)
qed

lemma weapon_recommendation:
  assumes mem: "r \<in> set (recommendations (generatePlan p now its))"
      and weapon: "itemType (item r) = Weapon"
      and unprot: "protectionReasons p (item r) = []"
  shows "r = analyzeWeapon p (item r) (targetItems p its) (tagReasons p (item r))"
proof -
  from recommendation_origin [OF mem]
  have "r = analyzeItem p (item r) (targetItems p its)" by (rule conjunct2)
  also have "\<dots> = analyzeWeapon p (item r) (targetItems p its) (tagReasons p (item r))"
    using weapon unprot by (simp add: analyzeItem_unprotected)
  finally show ?thesis .
qed

subsection \<open>The junk tag\<close>

lemma removeTag_fields:
  "protectionRules (removeTag p i) = protectionRules p"
  "armorScorer (removeTag p i) = armorScorer p"
  "config (removeTag p i) = config p"
  "loaded (dimParser (removeTag p i)) = loaded (dimParser p)"
  "getLoadoutsForItem (dimParser (removeTag p i)) x = getLoadoutsForItem (dimParser p) x"
  "getTag (dimParser (removeTag p i)) x = (if x = i then None else getTag (dimParser p) x)"
  by (simp_all add: removeTag_def loaded_def getLoadoutsForItem_def getTag_def
      split: option.splits)

lemma junk_tag_loaded: "getTag parser i = Some t \<Longrightarrow> loaded parser"
  by (simp add: getTag_def loaded_def split: option.splits)

lemma protectionReasons_removeTag:
  "getTag (dimParser p) i = Some ''junk'' \<Longrightarrow>
   protectionReasons (removeTag p i) it = protectionReasons p it"
  by (simp add: protectionReasons_def removeTag_fields Let_def)

lemma tagReasons_removeTag_other:
  "itemInstanceId it \<noteq> i \<Longrightarrow> tagReasons (removeTag p i) it = tagReasons p it"
  by (simp add: tagReasons_def removeTag_fields Let_def)

lemma tagReasons_junk:
  assumes "getTag (dimParser p) i = Some ''junk''" and "itemInstanceId it = i"
  shows "tagReasons p it = [''Tagged as junk in DIM'']" and "tagReasons (removeTag p i) it = []"
  using assms junk_tag_loaded [OF assms(1)]
  by (simp_all add: tagReasons_def removeTag_fields Let_def)

lemma targetItems_removeTag: "targetItems (removeTag p i) its = targetItems p its"
  by (simp add: targetItems_def removeTag_fields)

lemma analyzeWeapon_removeTag:
  "analyzeWeapon (removeTag p i) it all rs = analyzeWeapon p it all rs"
  by (simp add: analyzeWeapon_def)

lemma hasBetterDuplicate_removeTag:
  "hasBetterDuplicate (removeTag p i) it all = hasBetterDuplicate p it all"
  unfolding hasBetterDuplicate_def removeTag_fields by (rule refl)

lemma analyzeArmor_removeTag:
  "analyzeArmor (removeTag p i) it all rs = analyzeArmor p it all rs"
  unfolding analyzeArmor_def removeTag_fields hasBetterDuplicate_removeTag by (rule refl)

lemma junk_note_weapon:
  "item (analyzeWeapon p it all [n]) = item (analyzeWeapon p it all [])
   \<and> action (analyzeWeapon p it all [n]) = action (analyzeWeapon p it all [])
   \<and> score (analyzeWeapon p it all [n]) = score (analyzeWeapon p it all [])
   \<and> protectedBy (analyzeWeapon p it all [n]) = None
   \<and> protectedBy (analyzeWeapon p it all []) = None
   \<and> reason (analyzeWeapon p it all [n]) = n @ ''. '' @ reason (analyzeWeapon p it all [])"
  by (simp add: analyzeWeapon_def Let_def)

lemma junk_note_armor:
  "item (analyzeArmor p it all [n]) = item (analyzeArmor p it all [])
   \<and> action (analyzeArmor p it all [n]) = action (analyzeArmor p it all [])
   \<and> score (analyzeArmor p it all [n]) = score (analyzeArmor p it all [])
   \<and> protectedBy (analyzeArmor p it all [n]) = protectedBy (analyzeArmor p it all [])
   \<and> reason (analyzeArmor p it all [n]) =
       (if protectedBy (analyzeArmor p it all []) = None
        then n @ ''. '' @ reason (analyzeArmor p it all [])
        else reason (analyzeArmor p it all []))"
  by (cases "scoreArmor (armorScorer p) it"; cases "stats it")
     (simp_all add: analyzeArmor_def Let_def)

lemma analyzeItem_removeTag:
  assumes junk: "getTag (dimParser p) i = Some ''junk''"
  shows "specJunkTagEffect i (analyzeItem p it all) (analyzeItem (removeTag p i) it all)"
proof (cases "itemInstanceId it = i")
  case False
  then have "analyzeItem (removeTag p i) it all = analyzeItem p it all"
    by (simp add: analyzeItem_def Let_def protectionReasons_removeTag [OF junk]
        tagReasons_removeTag_other analyzeArmor_removeTag analyzeWeapon_removeTag)
  with False show ?thesis by (simp add: specJunkTagEffect_def item_analyzeItem)
next
  case True
  note tr = tagReasons_junk [OF junk True]
  show ?thesis
  proof (cases "protectionReasons p it = []")
    case False
    then show ?thesis
      by (simp add: specJunkTagEffect_def analyzeItem_protected protectionReasons_removeTag [OF junk])
  next
    case unprot: True
    show ?thesis
    proof (cases "itemType it = Armor")
      case True
      with unprot junk_note_armor [of p it all "''Tagged as junk in DIM''"] show ?thesis
        by (simp add: specJunkTagEffect_def analyzeItem_unprotected
            protectionReasons_removeTag [OF junk] tr analyzeArmor_removeTag item_analyzeArmor
            \<open>itemInstanceId it = i\<close>)
    next
      case False
      with unprot junk_note_weapon [of p it all "''Tagged as junk in DIM''"] show ?thesis
        by (simp add: specJunkTagEffect_def analyzeItem_unprotected
            protectionReasons_removeTag [OF junk] tr analyzeWeapon_removeTag
            item_analyzeWeapon \<open>itemInstanceId it = i\<close>)
    qed
  qed
qed

subsection \<open>The group map of the duplicate finder\<close>

lemma mapGet_Some_mem: "mapGet m k = Some v \<Longrightarrow> (k, v) \<in> set m"
  by (induction m) (auto split: if_splits)

lemma set_mapSet: "set (mapSet m k v) \<subseteq> insert (k, v) (set m)"
  by (induction m) (auto split: if_splits)

lemma groupsOk_mapSet:
  assumes "groupsOk m" and "itemType it \<noteq> Other"
  shows "groupsOk (mapSet m (itemHash it)
           ((case mapGet m (itemHash it) of None \<Rightarrow> [] | Some g \<Rightarrow> g) @ [it]))"
proof -
  have old: "\<And>g i. mapGet m (itemHash it) = Some g \<Longrightarrow> i \<in> set g \<Longrightarrow>
               itemHash i = itemHash it \<and> itemType i \<noteq> Other"
    using assms(1) mapGet_Some_mem unfolding groupsOk_def by fast
  have "\<forall>i \<in> set ((case mapGet m (itemHash it) of None \<Rightarrow> [] | Some g \<Rightarrow> g) @ [it]).
          itemHash i = itemHash it \<and> itemType i \<noteq> Other"
    using assms(2) old by (cases "mapGet m (itemHash it)") auto
  with assms(1) set_mapSet show ?thesis
    unfolding groupsOk_def by fast
qed

lemma groupsOk_collectGroups: "groupsOk m \<Longrightarrow> groupsOk (collectGroups opts its m)"
proof (induction opts its m rule: collectGroups.induct)
  case (1 opts groups)
  then show ?case by simp
next
  case (2 opts it rest groups)
  show ?case
  proof (cases "(itemType it = Weapon \<and> \<not> includeWeapons opts) \<or>
                (itemType it = Armor \<and> \<not> includeArmor opts) \<or> itemType it = Other")
    case True
    with 2 show ?thesis by auto
  next
    case False
    then have other: "itemType it \<noteq> Other" by simp
    from False 2 groupsOk_mapSet [OF "2.prems" other] show ?thesis
      by (simp add: Let_def)
  qed
qed

lemma buildGroups_mem:
  "g \<in> set (buildGroups finder m) \<Longrightarrow>
   (groupHash g, groupItems g) \<in> set m \<and>
   minDuplicates (options finder) \<le> int (length (groupItems g))"
  by (induction finder m rule: buildGroups.induct) (auto split: if_splits)

subsection \<open>The example inventories, evaluated\<close>

lemmas planner_defs =
  generatePlan_def targetItems_def analyzeItem_def protectionReasons_def tagReasons_def
  loaded_def getTag_def getLoadoutsForItem_def analyzeWeapon_def weaponCompare_def
  actionOrder_def newCleanupPlanner_def DEFAULT_PROTECTION_RULES_def plainPlanner_def
  junkPlanner_def mkWeapon_def showInt_def showNat.simps

lemma scenarioE_fields:
  "itemType scenarioE = Armor" "stats scenarioE = Some (mkStats 26 14 4 3 2 1)"
  "itemInstanceId scenarioE = ''E''" "location scenarioE = Vault"
  "isLocked scenarioE = False" "isMasterworked scenarioE = False" "tier scenarioE = Legendary"
  by (simp_all add: scenarioE_def mkArmor_def)

lemma scenarioE_score:
  "calculateTotalScore (mkStats 26 14 4 3 2 1) (analyzeStats (mkStats 26 14 4 3 2 1)) = 42"
  by code_simp

lemma plainPlanner_fields:
  "protectionRules plainPlanner = DEFAULT_PROTECTION_RULES"
  "armorScorer plainPlanner = newArmorScorer"
  "dimParser plainPlanner = \<lparr>backup = None\<rparr>"
  "onlyVault (config plainPlanner) = True"
  by (simp_all add: plainPlanner_def newCleanupPlanner_def)

lemma plainPlanner_unprotected:
  "\<not> isLocked it \<Longrightarrow> \<not> isMasterworked it \<Longrightarrow> tier it \<noteq> Exotic \<Longrightarrow>
   protectionReasons plainPlanner it = []"
  by (simp add: protectionReasons_def plainPlanner_fields DEFAULT_PROTECTION_RULES_def loaded_def)

lemma plainPlanner_tagReasons: "tagReasons plainPlanner it = []"
  by (simp add: tagReasons_def plainPlanner_fields loaded_def)

lemma plan_scenarioB:
  "map action (recommendations (generatePlan plainPlanner now scenarioB)) = [JUNK, JUNK, KEEP]"
  "map itemInstanceId (map item (recommendations (generatePlan plainPlanner now scenarioB)))
     = [''B2'', ''B3'', ''B1'']"
  "map reason (recommendations (generatePlan plainPlanner now scenarioB))
     = [''Duplicate (2 others exist). Not the best copy'',
        ''Duplicate (2 others exist). Not the best copy'',
        ''Best copy among 3 duplicates'']"
  by (simp_all add: planner_defs scenarioB_def)

lemma targetItems_scenarioB: "targetItems plainPlanner scenarioB = scenarioB"
  by (simp add: targetItems_def plainPlanner_fields scenarioB_def mkWeapon_def)

lemma targetItems_tiedPair: "targetItems plainPlanner tiedPair = tiedPair"
  by (simp add: targetItems_def plainPlanner_fields tiedPair_def mkWeapon_def)

lemma junkPlanner_tag: "getTag (dimParser junkPlanner) ''W1'' = Some ''junk''"
  by (simp add: junkPlanner_def newCleanupPlanner_def getTag_def)

lemma plan_junkTagged:
  "map action (recommendations (generatePlan junkPlanner now [junkTagged])) = [KEEP]"
  "map reason (recommendations (generatePlan junkPlanner now [junkTagged]))
     = [''Tagged as junk in DIM. Only copy of this weapon'']"
  "map protectedBy (recommendations (generatePlan junkPlanner now [junkTagged])) = [None]"
  "map action (recommendations (generatePlan (removeTag junkPlanner ''W1'') now [junkTagged]))
     = [KEEP]"
  "map reason (recommendations (generatePlan (removeTag junkPlanner ''W1'') now [junkTagged]))
     = [''Only copy of this weapon'']"
  by (simp_all add: planner_defs removeTag_def junkTagged_def)

lemma findDuplicates_mixed:
  "map groupHash (findDuplicates (newDuplicateFinder DEFAULT_OPTIONS) mixedInventory) = [7]"
  "map groupItems (findDuplicates (newDuplicateFinder DEFAULT_OPTIONS) mixedInventory)
     = [[mkWeapon ''M1'' 7 1810 False False, mkWeapon ''M3'' 7 1800 False False]]"
  by (simp_all add: findDuplicates_def newDuplicateFinder_def DEFAULT_OPTIONS_def
      mixedInventory_def mkWeapon_def)

subsection \<open>The planner over the store\<close>

text \<open>Every method returns the value that its definition over values gives on the contents
  of the array it was handed, and leaves a world that only has more arrays: the planner
  object, the clock and every array that existed before the call are as they were.\<close>

lemma extendsItems_refl [simp]: "extendsItems w w"
  by (simp add: extendsItems_def)

lemma take_prefix_length:
  assumes "take n xs = ys" "length ys = n"
  shows "n \<le> length xs"
  using assms by (metis length_take min.cobounded1)

lemma take_take_prefix:
  assumes "take (length xs) ys = xs" "take (length ys) zs = ys"
  shows "take (length xs) zs = xs"
proof -
  have le: "length xs \<le> length ys"
    using assms(1) by (metis length_take min.cobounded1)
  have "take (length xs) zs = take (length xs) (take (length ys) zs)"
    using le by (simp add: min_def)
  then show ?thesis using assms by simp
qed

lemma take_prefix_nth:
  assumes "take (length xs) ys = xs" "a < length xs"
  shows "ys ! a = xs ! a"
  using assms by (metis nth_take)

lemma extendsItems_trans:
  "extendsItems w w1 \<Longrightarrow> extendsItems w1 w2 \<Longrightarrow> extendsItems w w2"
  unfolding extendsItems_def by (auto intro: take_take_prefix)

lemma extendsItems_itemsAt:
  "extendsItems w w' \<Longrightarrow> a < length (itemArrays w) \<Longrightarrow> itemsAt w' a = itemsAt w a"
  unfolding extendsItems_def itemsAt_def by (auto intro: take_prefix_nth)

lemma extendsItems_length:
  "extendsItems w w' \<Longrightarrow> length (itemArrays w) \<le> length (itemArrays w')"
  unfolding extendsItems_def by (metis length_take min.cobounded1)

lemma extendsItems_planner: "extendsItems w w' \<Longrightarrow> plannerObject w' = plannerObject w"
  by (simp add: extendsItems_def)

lemma extendsItems_recs: "extendsItems w w' \<Longrightarrow> recArrays w' = recArrays w"
  by (simp add: extendsItems_def)

lemma newItemArray_extends: "extendsItems w (snd (newItemArray xs w))"
  by (simp add: newItemArray_def extendsItems_def)

lemma newItemArray_fst: "fst (newItemArray xs w) = length (itemArrays w)"
  by (simp add: newItemArray_def)

lemma newItemArray_itemsAt:
  "itemsAt (snd (newItemArray xs w)) (fst (newItemArray xs w)) = xs"
  by (simp add: newItemArray_def itemsAt_def)

lemma newItemArray_length:
  "length (itemArrays (snd (newItemArray xs w))) = Suc (length (itemArrays w))"
  by (simp add: newItemArray_def)

lemma sortItems_fresh_extends:
  assumes "extendsItems w w'" "length (itemArrays w) \<le> a"
  shows "extendsItems w (snd (sortItems cmp a w'))"
  using assms by (simp add: sortItems_def extendsItems_def)

lemma sortItems_itemsAt:
  "a < length (itemArrays w) \<Longrightarrow>
     itemsAt (snd (sortItems cmp a w)) a = jsSort cmp (itemsAt w a)"
  by (simp add: sortItems_def itemsAt_def)

lemma sortItems_itemsAt_other:
  "b \<noteq> a \<Longrightarrow> itemsAt (snd (sortItems cmp a w)) b = itemsAt w b"
  by (simp add: sortItems_def itemsAt_def)

lemma hasBetterDuplicateW_fst:
  "fst (hasBetterDuplicateW it a w) = hasBetterDuplicate (plannerObject w) it (itemsAt w a)"
  unfolding hasBetterDuplicateW_def hasBetterDuplicate_def filterItems_def newItemArray_def
  by (simp add: Let_def itemsAt_def split: option.splits)

lemma hasBetterDuplicateW_snd: "extendsItems w (snd (hasBetterDuplicateW it a w))"
  unfolding hasBetterDuplicateW_def filterItems_def newItemArray_def
  by (simp add: Let_def extendsItems_def split: option.splits)

lemma armorByScoreW_snd: "extendsItems w (snd (armorByScoreW it a rs sc w))"
  unfolding armorByScoreW_def
  by (simp add: Let_def split_def hasBetterDuplicateW_snd)

lemma analyzeArmorW_snd: "extendsItems w (snd (analyzeArmorW it a rs w))"
  unfolding analyzeArmorW_def
  by (simp add: Let_def armorByScoreW_snd split: option.splits)

lemma analyzeArmorW_fst:
  "fst (analyzeArmorW it a rs w) = analyzeArmor (plannerObject w) it (itemsAt w a) rs"
  unfolding analyzeArmorW_def analyzeArmor_def armorByScoreW_def
  by (simp add: Let_def split_def hasBetterDuplicateW_fst split: option.splits)

lemma analyzeWeaponW_snd: "extendsItems w (snd (analyzeWeaponW it a rs w))"
  unfolding analyzeWeaponW_def filterItems_def newItemArray_def sortItems_def
  by (simp add: Let_def extendsItems_def itemsAt_def)

lemma analyzeWeaponW_fst:
  "fst (analyzeWeaponW it a rs w) = analyzeWeapon (plannerObject w) it (itemsAt w a) rs"
  unfolding analyzeWeaponW_def analyzeWeapon_def filterItems_def newItemArray_def sortItems_def
  by (simp add: Let_def itemsAt_def nth_append length_jsSort length_insertBy)

lemma analyzeItemW_snd: "extendsItems w (snd (analyzeItemW it a w))"
  unfolding analyzeItemW_def
  by (simp add: Let_def analyzeArmorW_snd analyzeWeaponW_snd)

lemma analyzeItemW_fst:
  "fst (analyzeItemW it a w) = analyzeItem (plannerObject w) it (itemsAt w a)"
  unfolding analyzeItemW_def analyzeItem_def
  by (simp add: Let_def analyzeArmorW_fst analyzeWeaponW_fst)


lemma pushRec_fields [simp]:
  "plannerObject (pushRec a r w) = plannerObject w"
  "clock (pushRec a r w) = clock w"
  "itemArrays (pushRec a r w) = itemArrays w"
  "recArrays (pushRec a r w) = (recArrays w)[a := recsAt w a @ [r]]"
  by (simp_all add: pushRec_def)

lemma itemsAt_pushRec [simp]: "itemsAt (pushRec a r w) b = itemsAt w b"
  by (simp add: itemsAt_def)

lemma generatePlan_clock:
  "recommendations (generatePlan p t1 its) = recommendations (generatePlan p t2 its)"
  "summary (generatePlan p t1 its) = summary (generatePlan p t2 its)"
  by (simp_all add: generatePlan_def Let_def)

lemma analyzeAllW_returns:
  assumes "tRef < length (itemArrays w)" "rRef < length (recArrays w)"
  shows "\<exists>w'. analyzeAllW i tRef rRef w = Some w'
           \<and> plannerObject w' = plannerObject w \<and> clock w' = clock w
           \<and> take (length (itemArrays w)) (itemArrays w') = itemArrays w
           \<and> recArrays w' =
               (recArrays w)[rRef := recsAt w rRef @
                  map (\<lambda>it. analyzeItem (plannerObject w) it (itemsAt w tRef))
                      (drop i (itemsAt w tRef))]"
  using assms
proof (induction "length (itemsAt w tRef) - i" arbitrary: i w)
  case 0
  then have "\<not> i < length (itemsAt w tRef)" by simp
  then have "analyzeAllW i tRef rRef w = Some w" "drop i (itemsAt w tRef) = []"
    by (simp_all add: analyzeAllW.simps)
  then show ?case by (simp add: recsAt_def)
next
  case (Suc n)
  define tgt where "tgt = itemsAt w tRef"
  define r where "r = fst (analyzeItemW (tgt ! i) tRef w)"
  define w1 where "w1 = snd (analyzeItemW (tgt ! i) tRef w)"
  define w2 where "w2 = pushRec rRef r w1"
  from Suc.hyps(2) have lt: "i < length tgt" by (simp add: tgt_def)
  have ext: "extendsItems w w1"
    unfolding w1_def by (rule analyzeItemW_snd)
  have r: "r = analyzeItem (plannerObject w) (tgt ! i) tgt"
    unfolding r_def tgt_def by (rule analyzeItemW_fst)
  have tgt1: "itemsAt w1 tRef = tgt"
    unfolding tgt_def using ext Suc.prems(1) by (rule extendsItems_itemsAt)
  have recs1: "recArrays w1 = recArrays w"
    using ext by (rule extendsItems_recs)
  have p1: "plannerObject w1 = plannerObject w"
    using ext by (rule extendsItems_planner)
  have c1: "clock w1 = clock w"
    using ext by (simp add: extendsItems_def)
  have pre1: "take (length (itemArrays w)) (itemArrays w1) = itemArrays w"
    using ext by (simp add: extendsItems_def)
  have len1: "length (itemArrays w) \<le> length (itemArrays w1)"
    using ext by (rule extendsItems_length)
  have step: "analyzeAllW i tRef rRef w = analyzeAllW (i + 1) tRef rRef w2"
    using lt unfolding w2_def r_def w1_def tgt_def
    by (subst analyzeAllW.simps) (simp add: split_def)
  have tgt2: "itemsAt w2 tRef = tgt"
    by (simp add: w2_def tgt1)
  have n: "n = length (itemsAt w2 tRef) - (i + 1)"
    using Suc.hyps(2) by (simp add: tgt2 tgt_def)
  have t2: "tRef < length (itemArrays w2)"
    using Suc.prems(1) len1 by (simp add: w2_def)
  have r2: "rRef < length (recArrays w2)"
    using Suc.prems(2) by (simp add: w2_def recs1)
  from Suc.hyps(1) [OF n t2 r2] obtain w' where
    run: "analyzeAllW (i + 1) tRef rRef w2 = Some w'" and
    p': "plannerObject w' = plannerObject w2" and
    c': "clock w' = clock w2" and
    pre': "take (length (itemArrays w2)) (itemArrays w') = itemArrays w2" and
    recs': "recArrays w' =
               (recArrays w2)[rRef := recsAt w2 rRef @
                  map (\<lambda>it. analyzeItem (plannerObject w2) it (itemsAt w2 tRef))
                      (drop (i + 1) (itemsAt w2 tRef))]"
    by blast
  have at2: "recsAt w2 rRef = recsAt w rRef @ [r]"
    using Suc.prems(2) by (simp add: recsAt_def w2_def recs1)
  have drop: "drop i tgt = tgt ! i # drop (i + 1) tgt"
    using lt by (simp add: Cons_nth_drop_Suc)
  have "recArrays w' =
          (recArrays w)[rRef := recsAt w rRef @
             map (\<lambda>it. analyzeItem (plannerObject w) it tgt) (drop i tgt)]"
    unfolding recs' at2 tgt2 drop
    by (simp add: w2_def recs1 p1 r)
  moreover have "take (length (itemArrays w)) (itemArrays w') = itemArrays w"
  proof (rule take_take_prefix)
    show "take (length (itemArrays w)) (itemArrays w2) = itemArrays w"
      by (simp add: w2_def pre1)
    show "take (length (itemArrays w2)) (itemArrays w') = itemArrays w2"
      by (rule pre')
  qed
  ultimately show ?case
    unfolding step run tgt_def [symmetric]
    by (simp add: p' c' w2_def p1 c1)
qed

lemma generatePlanW_returns:
  assumes its: "its < length (itemArrays w)"
  shows "\<exists>plan w'. generatePlanW its w = Some (plan, w')
           \<and> extendsRecs w w'
           \<and> recommendationsRef plan = length (recArrays w)
           \<and> recommendationsRef plan < length (recArrays w')
           \<and> recsAt w' (recommendationsRef plan) =
               recommendations (generatePlan (plannerObject w) (clock w) (itemsAt w its))
           \<and> summaryOf plan = summary (generatePlan (plannerObject w) (clock w) (itemsAt w its))
           \<and> generatedAtOf plan = clock w"
proof -
  define p where "p = plannerObject w"
  define tgt where "tgt = targetItems p (itemsAt w its)"
  define w1 where "w1 = w\<lparr>itemArrays := itemArrays w @ [tgt]\<rparr>"
  define w2 where "w2 = w1\<lparr>recArrays := recArrays w1 @ [[]]\<rparr>"
  define tRef where "tRef = length (itemArrays w)"
  define rRef where "rRef = length (recArrays w)"
  have t2: "tRef < length (itemArrays w2)" and r2: "rRef < length (recArrays w2)"
    by (simp_all add: w2_def w1_def tRef_def rRef_def)
  have at2: "itemsAt w2 tRef = tgt" "recsAt w2 rRef = []" "plannerObject w2 = p"
    by (simp_all add: w2_def w1_def tRef_def rRef_def itemsAt_def recsAt_def p_def)
  from analyzeAllW_returns [OF t2 r2, of 0] obtain w3 where
    run: "analyzeAllW 0 tRef rRef w2 = Some w3" and
    p3: "plannerObject w3 = p" and
    c3: "clock w3 = clock w" and
    pre3: "take (length (itemArrays w2)) (itemArrays w3) = itemArrays w2" and
    recs3: "recArrays w3 = (recArrays w2)[rRef := map (\<lambda>it. analyzeItem p it tgt) tgt]"
    unfolding at2 by (auto simp: w2_def w1_def)
  have recs3': "recArrays w3 = recArrays w @ [map (\<lambda>it. analyzeItem p it tgt) tgt]"
    unfolding recs3 by (simp add: w2_def w1_def rRef_def)
  have pre: "take (length (itemArrays w)) (itemArrays w3) = itemArrays w"
  proof (rule take_take_prefix)
    show "take (length (itemArrays w)) (itemArrays w2) = itemArrays w"
      by (simp add: w2_def w1_def)
    show "take (length (itemArrays w2)) (itemArrays w3) = itemArrays w2"
      by (rule pre3)
  qed
  have first: "filterItems (\<lambda>it. if onlyVault (config p) \<and> location it \<noteq> Vault then False
                              else itemType it = Weapon \<or> itemType it = Armor) its w
                 = (tRef, w1)"
    by (simp add: filterItems_def newItemArray_def tRef_def w1_def tgt_def targetItems_def)
  have second: "newRecArray [] w1 = (rRef, w2)"
    by (simp add: newRecArray_def rRef_def w2_def w1_def)
  show ?thesis
    unfolding generatePlanW_def p_def [symmetric]
    apply (simp only: Let_def first second prod.case run option.case)
    apply (simp add: sortRecs_def filterRecs_def newRecArray_def recsAt_def recs3' rRef_def
        extendsRecs_def p3 c3 pre generatePlan_def Let_def tgt_def [symmetric]
        p_def [symmetric] nth_append)
    done
qed

lemma extendsRecs_recsAt:
  "extendsRecs w w' \<Longrightarrow> a < length (recArrays w) \<Longrightarrow> recsAt w' a = recsAt w a"
  unfolding extendsRecs_def recsAt_def by (auto intro: take_prefix_nth)

lemma extendsRecs_itemsAt:
  "extendsRecs w w' \<Longrightarrow> a < length (itemArrays w) \<Longrightarrow> itemsAt w' a = itemsAt w a"
  unfolding extendsRecs_def itemsAt_def by (auto intro: take_prefix_nth)

lemma extendsRecs_lengths:
  assumes "extendsRecs w w'"
  shows "length (itemArrays w) \<le> length (itemArrays w')"
    and "length (recArrays w) \<le> length (recArrays w')"
  using assms unfolding extendsRecs_def by (metis length_take min.cobounded1)+

text \<open>The first call on scenario B, evaluated: it leaves eight item arrays (the caller's,
  \<^verbatim>\<open>targetItems\<close>, and \<^verbatim>\<open>duplicates\<close> and the sorted \<^verbatim>\<open>allCopies\<close> of each of the three
  weapons) and five recommendation arrays (the plan's and the four of the summary).\<close>

lemma generatePlanW_scenarioB:
  "map_option (\<lambda>(plan, w'). (length (itemArrays w'), length (recArrays w'),
                 map action (recsAt w' (recommendationsRef plan)),
                 map (map itemInstanceId) (itemArrays w')))
     (generatePlanW 0 scenarioBWorld)
   = Some (8, 5, [JUNK, JUNK, KEEP],
       [[''B1'', ''B2'', ''B3''], [''B1'', ''B2'', ''B3''],
        [''B2'', ''B3''], [''B1'', ''B2'', ''B3''],
        [''B1'', ''B3''], [''B1'', ''B2'', ''B3''],
        [''B1'', ''B2''], [''B1'', ''B2'', ''B3'']])"
  by code_simp

section \<open>The claims\<close>

subsection \<open>Armor scoring\<close>

text \<open>
  Claim C2, as the specification states it: the Scenario A armor piece (Mobility 2,
  Resilience 20, Recovery 26, Discipline 15, Intellect 6, Strength 8, total 77) scores 80,
  with a weak-stat penalty of 5. The code does not return 80 for that item.
\<close>

theorem C2_scenarioA_score_is_not_80:
  "map_option totalScore (scoreArmor newArmorScorer scenarioA) \<noteq> Some 80"
  by (simp add: scoreArmor_total [OF scenarioA_item] scenarioA_score)

text \<open>
  Claim C2, amended: for the Scenario A armor piece \<open>scoreArmor\<close> returns the total score
  75, composed of base 40 (total 77 is at least 68), super-spike bonus 30, distribution
  bonus 0, weak-stat penalty 10 (two stats are at or below 6: Mobility 2 and Intellect 6)
  and top-stat bonus 15.
\<close>

theorem C2_scenarioA_score_is_75:
  "map_option totalScore (scoreArmor newArmorScorer scenarioA) = Some 75
   \<and> total scenarioA_stats = 77
   \<and> baseScore scenarioA_stats = 40
   \<and> spikeBonus (analyzeStats scenarioA_stats) = 30
   \<and> distributionBonus (analyzeStats scenarioA_stats) = 0
   \<and> weakStats (analyzeStats scenarioA_stats) = [(''Mobility'', 2), (''Intellect'', 6)]
   \<and> weakPenalty (analyzeStats scenarioA_stats) = 10
   \<and> topStatBonus (analyzeStats scenarioA_stats) = 15"
proof -
  have weak: "weakStats (analyzeStats scenarioA_stats) = [(''Mobility'', 2), (''Intellect'', 6)]"
    by (simp add: scenarioA_analysis)
  show ?thesis
    by (simp add: scoreArmor_total [OF scenarioA_item] scenarioA_score scenarioA_total
        scenarioA_parts weak)
qed

text \<open>
  Claim C3: for every armor item that carries a stat vector, whatever its six stat values
  and its total are, \<open>scoreArmor\<close> returns a score, and the total score is an integer
  between 0 and 100.
\<close>

theorem C3_total_score_in_range:
  assumes "itemType it = Armor" and "stats it = Some st"
  shows "\<exists>sc. scoreArmor scr it = Some sc \<and> 0 \<le> totalScore sc \<and> totalScore sc \<le> 100"
  using assms by (simp add: scoreArmor_def calculateTotalScore_def Let_def split: prod.splits)

text \<open>Scenario A is such an item.\<close>

theorem C3_total_score_in_range_witness:
  "itemType scenarioA = Armor \<and> stats scenarioA = Some scenarioA_stats \<and>
   (\<exists>sc. scoreArmor newArmorScorer scenarioA = Some sc \<and>
         0 \<le> totalScore sc \<and> totalScore sc \<le> 100)"
  using C3_total_score_in_range [OF scenarioA_item, of newArmorScorer] scenarioA_item by simp

text \<open>
  Claim C9: \<open>compareArmor\<close> is anti-symmetric in its winner. Swapping the two arguments
  yields the same winning item (so a winner in the first role becomes the winner in the
  second role), a tie stays a tie, and the two scores are the scores of the two items,
  exchanged between the roles.
\<close>

theorem C9_compareArmor_antisymmetric:
  "winner (compareArmor scr a b) = winner (compareArmor scr b a)
   \<and> score1 (compareArmor scr a b) = score2 (compareArmor scr b a)
   \<and> score2 (compareArmor scr a b) = score1 (compareArmor scr b a)
   \<and> score1 (compareArmor scr a b) = scoreArmor scr a
   \<and> score2 (compareArmor scr a b) = scoreArmor scr b"
proof (cases "scoreArmor scr a")
  case None
  then show ?thesis
    by (cases "scoreArmor scr b") (simp_all add: compareArmor_def)
next
  case sa: (Some sa)
  show ?thesis
  proof (cases "scoreArmor scr b")
    case None
    with sa show ?thesis by (simp add: compareArmor_def)
  next
    case sb: (Some sb)
    have margin: "\<not> (addD (bestProfileScore sb) 2 < bestProfileScore sa \<and>
                     addD (bestProfileScore sa) 2 < bestProfileScore sb)"
      by (rule no_mutual_margin)
         (rule bestProfileScore_double [OF sa], rule bestProfileScore_double [OF sb])
    show ?thesis
      using margin by (auto simp: compareArmor_def sa sb Let_def)
  qed
qed

subsection \<open>The cleanup plan\<close>

text \<open>
  Claim C1: every recommendation of a plan whose list of protection reasons is present
  and non-empty has the action KEEP.
\<close>

theorem C1_protected_is_keep:
  assumes "r \<in> set (recommendations (generatePlan p now its))" and "hasProtection r"
  shows "action r = KEEP"
proof -
  from assms(1) have "r = analyzeItem p (item r) (targetItems p its)"
    by (simp add: recommendation_origin)
  with assms(2) hasProtection_analyzeItem [of p "item r" "targetItems p its"]
  show ?thesis by simp
qed

text \<open>A locked weapon under the default rules is protected, and kept.\<close>

theorem C1_protected_is_keep_witness:
  "analyzeItem plainPlanner lockedWeapon [lockedWeapon]
      \<in> set (recommendations (generatePlan plainPlanner 0 [lockedWeapon]))
   \<and> hasProtection (analyzeItem plainPlanner lockedWeapon [lockedWeapon])
   \<and> protectedBy (analyzeItem plainPlanner lockedWeapon [lockedWeapon]) = Some [''Locked in game'']
   \<and> action (analyzeItem plainPlanner lockedWeapon [lockedWeapon]) = KEEP"
proof -
  let ?r = "analyzeItem plainPlanner lockedWeapon [lockedWeapon]"
  have tgt: "targetItems plainPlanner [lockedWeapon] = [lockedWeapon]"
    by (simp add: targetItems_def plainPlanner_fields lockedWeapon_def mkWeapon_def)
  have mem: "?r \<in> set (recommendations (generatePlan plainPlanner 0 [lockedWeapon]))"
    by (simp add: recommendations_generatePlan tgt)
  have pr: "protectionReasons plainPlanner lockedWeapon = [''Locked in game'']"
    by (simp add: protectionReasons_def plainPlanner_fields DEFAULT_PROTECTION_RULES_def
        loaded_def lockedWeapon_def mkWeapon_def)
  have by_rule: "protectedBy ?r = Some [''Locked in game'']"
    by (simp add: analyzeItem_protected pr)
  then have prot: "hasProtection ?r" by (simp add: hasProtection_def)
  from C1_protected_is_keep [OF mem prot] mem prot by_rule show ?thesis by simp
qed

text \<open>
  Claim C4: for an armor item of a plan that no protection rule or tag protects, an
  unscorable item gets REVIEW; a scorable item that does not meet the high-stat threshold
  gets KEEP from score 75, KEEP from 50 to 74 unless another armor candidate of the same
  definition scores more than 10 points higher (then REVIEW), REVIEW from 30 to 49 with a
  reason made of the junk-tag note (if any) and \<open>Below average armor score: s/100\<close>, and
  JUNK below 30.
\<close>

theorem C4_unprotected_armor_tiers:
  assumes mem: "r \<in> set (recommendations (generatePlan p now its))"
      and armor: "itemType (item r) = Armor"
      and unprot: "protectionReasons p (item r) = []"
  shows "case scoreArmor (armorScorer p) (item r) of
           None \<Rightarrow> action r = REVIEW
         | Some sc \<Rightarrow>
             \<not> specHighStat p (item r) \<longrightarrow>
               (75 \<le> totalScore sc \<longrightarrow> action r = KEEP) \<and>
               (50 \<le> totalScore sc \<and> totalScore sc \<le> 74 \<longrightarrow>
                  action r = (if specBetterDuplicate p (item r) (totalScore sc) (targetItems p its)
                              then REVIEW else KEEP)) \<and>
               (30 \<le> totalScore sc \<and> totalScore sc \<le> 49 \<longrightarrow>
                  action r = REVIEW \<and>
                  reason r = join ''. '' (tagReasons p (item r) @
                    [''Below average armor score: '' @ showInt (totalScore sc) @ ''/100''])) \<and>
               (totalScore sc < 30 \<longrightarrow> action r = JUNK)"
proof -
  define it where "it = item r"
  define tgt where "tgt = targetItems p its"
  define rs where "rs = tagReasons p it"
  from recommendation_origin [OF mem] have "r = analyzeItem p it tgt"
    unfolding it_def tgt_def by (rule conjunct2)
  also have "\<dots> = analyzeArmor p it tgt rs"
    using armor [folded it_def] unprot [folded it_def]
    by (simp add: analyzeItem_unprotected rs_def)
  finally have r: "r = analyzeArmor p it tgt rs" .
  have goal: "case scoreArmor (armorScorer p) it of
           None \<Rightarrow> action (analyzeArmor p it tgt rs) = REVIEW
         | Some sc \<Rightarrow>
             \<not> specHighStat p it \<longrightarrow>
               (75 \<le> totalScore sc \<longrightarrow> action (analyzeArmor p it tgt rs) = KEEP) \<and>
               (50 \<le> totalScore sc \<and> totalScore sc \<le> 74 \<longrightarrow>
                  action (analyzeArmor p it tgt rs) =
                    (if specBetterDuplicate p it (totalScore sc) tgt then REVIEW else KEEP)) \<and>
               (30 \<le> totalScore sc \<and> totalScore sc \<le> 49 \<longrightarrow>
                  action (analyzeArmor p it tgt rs) = REVIEW \<and>
                  reason (analyzeArmor p it tgt rs) = join ''. '' (rs @
                    [''Below average armor score: '' @ showInt (totalScore sc) @ ''/100''])) \<and>
               (totalScore sc < 30 \<longrightarrow> action (analyzeArmor p it tgt rs) = JUNK)"
  proof (cases "scoreArmor (armorScorer p) it")
    case None
    then show ?thesis by (simp add: analyzeArmor_unscorable)
  next
    case (Some sc)
    show ?thesis
      unfolding Some option.case
      by (intro impI conjI) (use analyzeArmor_tiers [OF Some] in blast)+
  qed
  have ar: "action r = action (analyzeArmor p it tgt rs)"
    and rr: "reason r = reason (analyzeArmor p it tgt rs)"
    using r by simp_all
  show ?thesis
    unfolding it_def [symmetric] tgt_def [symmetric]
    unfolding rs_def [symmetric] ar rr
    by (rule goal)
qed

text \<open>Scenario E: an armor piece scoring 42, with no duplicate, gets REVIEW with the
  reason \<open>Below average armor score: 42/100\<close>.\<close>

theorem C4_unprotected_armor_tiers_witness:
  "analyzeItem plainPlanner scenarioE [scenarioE]
      \<in> set (recommendations (generatePlan plainPlanner 0 [scenarioE]))
   \<and> itemType (item (analyzeItem plainPlanner scenarioE [scenarioE])) = Armor
   \<and> protectionReasons plainPlanner (item (analyzeItem plainPlanner scenarioE [scenarioE])) = []
   \<and> map_option totalScore (scoreArmor (armorScorer plainPlanner) scenarioE) = Some 42
   \<and> action (analyzeItem plainPlanner scenarioE [scenarioE]) = REVIEW
   \<and> reason (analyzeItem plainPlanner scenarioE [scenarioE]) = ''Below average armor score: 42/100''"
proof -
  let ?r = "analyzeItem plainPlanner scenarioE [scenarioE]"
  have tgt: "targetItems plainPlanner [scenarioE] = [scenarioE]"
    by (simp add: targetItems_def plainPlanner_fields scenarioE_fields)
  have mem: "?r \<in> set (recommendations (generatePlan plainPlanner 0 [scenarioE]))"
    by (simp add: recommendations_generatePlan tgt)
  have armor: "itemType (item ?r) = Armor"
    by (simp add: item_analyzeItem scenarioE_fields)
  have unprot: "protectionReasons plainPlanner (item ?r) = []"
    by (simp add: item_analyzeItem plainPlanner_unprotected scenarioE_fields)
  have tot: "map_option totalScore (scoreArmor (armorScorer plainPlanner) scenarioE) = Some 42"
    by (simp add: scoreArmor_total [OF scenarioE_fields(1,2)] scenarioE_score)
  then obtain sc where sc: "scoreArmor (armorScorer plainPlanner) scenarioE = Some sc"
    and sc42: "totalScore sc = 42" by auto
  have nohigh: "\<not> specHighStat plainPlanner scenarioE"
    by (simp add: specHighStat_def plainPlanner_fields DEFAULT_PROTECTION_RULES_def
        scenarioE_fields mkStats_def)
  from C4_unprotected_armor_tiers [OF mem armor unprot]
  have "action ?r = REVIEW \<and>
        reason ?r = join ''. '' (tagReasons plainPlanner scenarioE @
          [''Below average armor score: '' @ showInt 42 @ ''/100''])"
    by (simp add: item_analyzeItem sc sc42 nohigh)
  then have "action ?r = REVIEW \<and> reason ?r = ''Below average armor score: 42/100''"
    by (simp add: plainPlanner_tagReasons showInt_def showNat.simps)
  with mem armor unprot tot show ?thesis by simp
qed

text \<open>
  Claim C5, as the specification states it: among the copies of one weapon, the copy at
  the top of the ranking gets KEEP and every other copy gets JUNK. With two copies tied at
  the top (power 1810 twice, and a third copy at 1800), the code keeps both tied copies.
\<close>

theorem C5_tied_copies_both_kept:
  "map itemInstanceId (map item (recommendations (generatePlan plainPlanner 0 tiedTop)))
     = [''T3'', ''T1'', ''T2'']
   \<and> map action (recommendations (generatePlan plainPlanner 0 tiedTop)) = [JUNK, KEEP, KEEP]"
  by (simp add: planner_defs tiedTop_def)

text \<open>
  Claim C5, amended: for a weapon of a plan that no protection rule or tag protects: with
  no other candidate of the same definition it gets KEEP, the reason ending in
  \<open>Only copy of this weapon\<close>; otherwise it gets KEEP (\<open>Best copy among n duplicates\<close>)
  when no other candidate of the same definition ranks strictly above it by masterwork,
  then lock state, then power level, so that copies tied at the top are all kept, and
  JUNK (\<open>Not the best copy\<close>) when some candidate ranks strictly above it; it never gets
  REVIEW. Each reason is preceded by the junk-tag note when the item carries that tag.
\<close>

theorem C5_unprotected_weapon_ranking:
  assumes mem: "r \<in> set (recommendations (generatePlan p now its))"
      and weapon: "itemType (item r) = Weapon"
      and unprot: "protectionReasons p (item r) = []"
  shows "(specCopies (item r) (targetItems p its) = [] \<longrightarrow>
            action r = KEEP \<and>
            reason r = join ''. '' (tagReasons p (item r) @ [''Only copy of this weapon''])) \<and>
         (specCopies (item r) (targetItems p its) \<noteq> [] \<and>
          (\<forall>d \<in> set (specCopies (item r) (targetItems p its)). \<not> specOutranks d (item r)) \<longrightarrow>
            action r = KEEP \<and>
            reason r = join ''. '' (tagReasons p (item r) @
              [''Best copy among '' @
               showInt (int (length (specCopies (item r) (targetItems p its))) + 1) @
               '' duplicates''])) \<and>
         ((\<exists>d \<in> set (specCopies (item r) (targetItems p its)). specOutranks d (item r)) \<longrightarrow>
            action r = JUNK \<and>
            reason r = join ''. '' (tagReasons p (item r) @
              [''Duplicate ('' @ showInt (int (length (specCopies (item r) (targetItems p its)))) @
               '' others exist)'', ''Not the best copy''])) \<and>
         action r \<noteq> REVIEW"
proof -
  define it where "it = item r"
  define tgt where "tgt = targetItems p its"
  define rs where "rs = tagReasons p it"
  have r: "r = analyzeWeapon p it tgt rs"
    using weapon_recommendation [OF mem weapon unprot] by (simp only: it_def tgt_def rs_def)
  have ar: "action r = action (analyzeWeapon p it tgt rs)"
    and rr: "reason r = reason (analyzeWeapon p it tgt rs)"
    using r by simp_all
  have only: "specCopies it tgt = [] \<Longrightarrow>
      action (analyzeWeapon p it tgt rs) = KEEP \<and>
      reason (analyzeWeapon p it tgt rs) = join ''. '' (rs @ [''Only copy of this weapon''])"
    by (simp add: analyzeWeapon_only_copy)
  have best: "specCopies it tgt \<noteq> [] \<Longrightarrow> \<forall>d \<in> set (specCopies it tgt). \<not> specOutranks d it \<Longrightarrow>
      action (analyzeWeapon p it tgt rs) = KEEP \<and>
      reason (analyzeWeapon p it tgt rs) = join ''. '' (rs @
        [''Best copy among '' @ showInt (int (length (specCopies it tgt)) + 1) @ '' duplicates''])"
    by (simp add: analyzeWeapon_best)
  have worse: "\<exists>d \<in> set (specCopies it tgt). specOutranks d it \<Longrightarrow>
      action (analyzeWeapon p it tgt rs) = JUNK \<and>
      reason (analyzeWeapon p it tgt rs) = join ''. '' (rs @
        [''Duplicate ('' @ showInt (int (length (specCopies it tgt))) @ '' others exist)'',
         ''Not the best copy''])"
    by (simp add: analyzeWeapon_not_best)
  have never: "action (analyzeWeapon p it tgt rs) \<noteq> REVIEW"
    by (simp add: analyzeWeapon_def Let_def)
  show ?thesis
    unfolding it_def [symmetric] tgt_def [symmetric]
    unfolding rs_def [symmetric] ar rr
    using only best worse never by blast
qed

text \<open>Scenario B: of three copies at power 1810, 1805 and 1800, none locked or
  masterworked, the 1810 copy is kept and the other two are JUNK, \<open>Not the best copy\<close>.\<close>

theorem C5_scenarioB_witness:
  "analyzeItem plainPlanner (mkWeapon ''B2'' 7 1805 False False) scenarioB
      \<in> set (recommendations (generatePlan plainPlanner 0 scenarioB))
   \<and> itemType (mkWeapon ''B2'' 7 1805 False False) = Weapon
   \<and> protectionReasons plainPlanner (mkWeapon ''B2'' 7 1805 False False) = []
   \<and> specOutranks (mkWeapon ''B1'' 7 1810 False False) (mkWeapon ''B2'' 7 1805 False False)
   \<and> action (analyzeItem plainPlanner (mkWeapon ''B2'' 7 1805 False False) scenarioB) = JUNK
   \<and> map itemInstanceId (map item (recommendations (generatePlan plainPlanner 0 scenarioB)))
        = [''B2'', ''B3'', ''B1'']
   \<and> map action (recommendations (generatePlan plainPlanner 0 scenarioB)) = [JUNK, JUNK, KEEP]
   \<and> map reason (recommendations (generatePlan plainPlanner 0 scenarioB))
        = [''Duplicate (2 others exist). Not the best copy'',
           ''Duplicate (2 others exist). Not the best copy'',
           ''Best copy among 3 duplicates'']"
proof -
  let ?b2 = "mkWeapon ''B2'' 7 1805 False False"
  let ?r = "analyzeItem plainPlanner ?b2 scenarioB"
  have mem: "?r \<in> set (recommendations (generatePlan plainPlanner 0 scenarioB))"
    by (simp add: recommendations_generatePlan set_jsSort targetItems_scenarioB)
       (simp add: scenarioB_def)
  have weapon: "itemType (item ?r) = Weapon"
    by (simp add: item_analyzeItem mkWeapon_def)
  have unprot: "protectionReasons plainPlanner (item ?r) = []"
    by (simp add: item_analyzeItem plainPlanner_unprotected mkWeapon_def)
  have out: "specOutranks (mkWeapon ''B1'' 7 1810 False False) ?b2"
    by (simp add: specOutranks_def mkWeapon_def)
  have copy: "mkWeapon ''B1'' 7 1810 False False \<in> set (specCopies (item ?r) (targetItems plainPlanner scenarioB))"
    unfolding item_analyzeItem targetItems_scenarioB
    by (simp add: specCopies_def scenarioB_def mkWeapon_def)
  from C5_unprotected_weapon_ranking [OF mem weapon unprot] out copy
  have "action ?r = JUNK" unfolding item_analyzeItem by blast
  with mem weapon unprot out plan_scenarioB [of 0] show ?thesis
    by (simp add: item_analyzeItem)
qed

text \<open>
  Claim C10, as stated: when the unprotected copies of one weapon tie on the full ranking
  key, every copy is kept. Next to a locked (hence protected) copy of the same power, the
  two unprotected copies tie with each other, and the code marks both JUNK.
\<close>

theorem C10_tied_unprotected_copies_junked:
  "map itemInstanceId (map item (recommendations (generatePlan plainPlanner 0 tiedBesideLocked)))
     = [''L2'', ''L3'', ''L1'']
   \<and> map action (recommendations (generatePlan plainPlanner 0 tiedBesideLocked))
     = [JUNK, JUNK, KEEP]
   \<and> map protectedBy (recommendations (generatePlan plainPlanner 0 tiedBesideLocked))
     = [None, None, Some [''Locked in game'']]"
  by (simp add: planner_defs tiedBesideLocked_def)

text \<open>
  Claim C10, amended: when every other candidate of the same definition, protected or
  not, ties with a weapon on the full ranking key (equal masterwork state, equal lock
  state, equal power level), the weapon gets KEEP; if it is unprotected and has such
  copies, the reason is \<open>Best copy among n duplicates\<close> (after the junk-tag note, if any).
  So when all copies of a definition tie, none of them is JUNK.
\<close>

theorem C10_tied_copies_all_kept:
  assumes mem: "r \<in> set (recommendations (generatePlan p now its))"
      and weapon: "itemType (item r) = Weapon"
      and tie: "\<forall>d \<in> set (specCopies (item r) (targetItems p its)).
                  isMasterworked d = isMasterworked (item r) \<and>
                  isLocked d = isLocked (item r) \<and>
                  powerLevel d = powerLevel (item r)"
  shows "action r = KEEP \<and>
         (protectionReasons p (item r) = [] \<and> specCopies (item r) (targetItems p its) \<noteq> [] \<longrightarrow>
            reason r = join ''. '' (tagReasons p (item r) @
              [''Best copy among '' @
               showInt (int (length (specCopies (item r) (targetItems p its))) + 1) @
               '' duplicates'']))"
proof (cases "protectionReasons p (item r) = []")
  case False
  from recommendation_origin [OF mem]
  have "r = analyzeItem p (item r) (targetItems p its)" by (rule conjunct2)
  then have "action r = action (analyzeItem p (item r) (targetItems p its))" by simp
  also have "\<dots> = KEEP" using False by (simp add: analyzeItem_protected)
  finally show ?thesis using False by simp
next
  case True
  define it where "it = item r"
  define tgt where "tgt = targetItems p its"
  define rs where "rs = tagReasons p it"
  have r: "r = analyzeWeapon p it tgt rs"
    using weapon_recommendation [OF mem weapon True] by (simp only: it_def tgt_def rs_def)
  have ar: "action r = action (analyzeWeapon p it tgt rs)"
    and rr: "reason r = reason (analyzeWeapon p it tgt rs)"
    using r by simp_all
  have none: "\<forall>d \<in> set (specCopies it tgt). \<not> specOutranks d it"
    using tie unfolding it_def tgt_def by (simp add: specOutranks_def)
  have "action (analyzeWeapon p it tgt rs) = KEEP \<and>
        (specCopies it tgt \<noteq> [] \<longrightarrow>
           reason (analyzeWeapon p it tgt rs) = join ''. '' (rs @
             [''Best copy among '' @ showInt (int (length (specCopies it tgt)) + 1) @
              '' duplicates'']))"
  proof (cases "specCopies it tgt = []")
    case True
    then show ?thesis by (simp add: analyzeWeapon_only_copy)
  next
    case False
    then show ?thesis using none by (simp add: analyzeWeapon_best)
  qed
  then show ?thesis
    unfolding it_def [symmetric] tgt_def [symmetric]
    unfolding rs_def [symmetric] ar rr
    by simp
qed

text \<open>Two tied, unprotected copies: both are kept as the best copy.\<close>

theorem C10_tied_copies_all_kept_witness:
  "analyzeItem plainPlanner (mkWeapon ''P2'' 8 1800 False False) tiedPair
      \<in> set (recommendations (generatePlan plainPlanner 0 tiedPair))
   \<and> itemType (mkWeapon ''P2'' 8 1800 False False) = Weapon
   \<and> specCopies (mkWeapon ''P2'' 8 1800 False False) (targetItems plainPlanner tiedPair)
        = [mkWeapon ''P1'' 8 1800 False False]
   \<and> action (analyzeItem plainPlanner (mkWeapon ''P2'' 8 1800 False False) tiedPair) = KEEP
   \<and> reason (analyzeItem plainPlanner (mkWeapon ''P2'' 8 1800 False False) tiedPair)
        = ''Best copy among 2 duplicates''
   \<and> map action (recommendations (generatePlan plainPlanner 0 tiedPair)) = [KEEP, KEEP]"
proof -
  let ?p2 = "mkWeapon ''P2'' 8 1800 False False"
  let ?r = "analyzeItem plainPlanner ?p2 tiedPair"
  have mem: "?r \<in> set (recommendations (generatePlan plainPlanner 0 tiedPair))"
    by (simp add: recommendations_generatePlan set_jsSort targetItems_tiedPair)
       (simp add: tiedPair_def)
  have weapon: "itemType (item ?r) = Weapon"
    by (simp add: item_analyzeItem mkWeapon_def)
  have copies: "specCopies ?p2 (targetItems plainPlanner tiedPair) = [mkWeapon ''P1'' 8 1800 False False]"
    unfolding targetItems_tiedPair
    by (simp add: specCopies_def tiedPair_def mkWeapon_def)
  have tie: "\<forall>d \<in> set (specCopies (item ?r) (targetItems plainPlanner tiedPair)).
                  isMasterworked d = isMasterworked (item ?r) \<and>
                  isLocked d = isLocked (item ?r) \<and>
                  powerLevel d = powerLevel (item ?r)"
    by (simp add: item_analyzeItem copies) (simp add: mkWeapon_def)
  have unprot: "protectionReasons plainPlanner ?p2 = []"
    by (simp add: plainPlanner_unprotected mkWeapon_def)
  from C10_tied_copies_all_kept [OF mem weapon tie]
  have "action ?r = KEEP \<and>
        reason ?r = join ''. '' (tagReasons plainPlanner ?p2 @
          [''Best copy among '' @ showInt (int (length [mkWeapon ''P1'' 8 1800 False False]) + 1) @
           '' duplicates''])"
    by (simp add: item_analyzeItem copies unprot)
  then have "action ?r = KEEP \<and> reason ?r = ''Best copy among 2 duplicates''"
    by (simp add: plainPlanner_tagReasons showInt_def showNat.simps)
  moreover have "map action (recommendations (generatePlan plainPlanner 0 tiedPair)) = [KEEP, KEEP]"
    by (simp add: planner_defs tiedPair_def)
  ultimately show ?thesis using mem weapon copies by (simp add: item_analyzeItem)
qed

text \<open>
  Claim C6, as stated: the junk tag influences the reason text only when the action ends
  up JUNK or REVIEW. A junk-tagged weapon that is the only copy of its definition gets
  KEEP, and its reason carries the junk note, which it does not without the tag.
\<close>

theorem C6_junk_tag_changes_keep_reason:
  "getTag (dimParser junkPlanner) ''W1'' = Some ''junk''
   \<and> map itemInstanceId (map item (recommendations (generatePlan junkPlanner 0 [junkTagged])))
       = [''W1'']
   \<and> map protectedBy (recommendations (generatePlan junkPlanner 0 [junkTagged])) = [None]
   \<and> map action (recommendations (generatePlan junkPlanner 0 [junkTagged])) = [KEEP]
   \<and> map reason (recommendations (generatePlan junkPlanner 0 [junkTagged]))
       = [''Tagged as junk in DIM. Only copy of this weapon'']
   \<and> map reason (recommendations (generatePlan (removeTag junkPlanner ''W1'') 0 [junkTagged]))
       = [''Only copy of this weapon'']"
  by (simp add: junkPlanner_tag plan_junkTagged) (simp add: planner_defs junkTagged_def)

text \<open>
  Claim C6, amended: removing a junk tag from the build manifest changes no item, action,
  score or protection list of the plan, and no position in it. The tag only changes the
  reason of the tagged item, and exactly when the recommendation carries no protection
  list (the item went through the armor or weapon analysis and was not rescued by the
  high-stat rule): the reason is then preceded by \<open>Tagged as junk in DIM. \<close>, whether the
  action is KEEP, REVIEW or JUNK.
\<close>

theorem C6_junk_tag_effect:
  assumes junk: "getTag (dimParser p) ident = Some ''junk''"
  shows "list_all2 (specJunkTagEffect ident)
           (recommendations (generatePlan p now its))
           (recommendations (generatePlan (removeTag p ident) now its))"
proof -
  have pointwise: "list_all2 (specJunkTagEffect ident)
          (map (\<lambda>it. analyzeItem p it (targetItems p its)) (targetItems p its))
          (map (\<lambda>it. analyzeItem (removeTag p ident) it (targetItems p its)) (targetItems p its))"
    by (simp add: list.rel_map list_all2_same analyzeItem_removeTag [OF junk])
  show ?thesis
    unfolding recommendations_generatePlan targetItems_removeTag
  proof (rule jsSort_rel)
    show "list_all2 (specJunkTagEffect ident)
          (map (\<lambda>it. analyzeItem p it (targetItems p its)) (targetItems p its))
          (map (\<lambda>it. analyzeItem (removeTag p ident) it (targetItems p its)) (targetItems p its))"
      by (rule pointwise)
  next
    fix a b a' b'
    assume "specJunkTagEffect ident a a'" and "specJunkTagEffect ident b b'"
    then show "actionOrder (action a) - actionOrder (action b)
               = actionOrder (action a') - actionOrder (action b')"
      by (simp add: specJunkTagEffect_def)
  qed
qed

text \<open>The junk-tagged single weapon.\<close>

theorem C6_junk_tag_effect_witness:
  "getTag (dimParser junkPlanner) ''W1'' = Some ''junk''
   \<and> list_all2 (specJunkTagEffect ''W1'')
        (recommendations (generatePlan junkPlanner 0 [junkTagged]))
        (recommendations (generatePlan (removeTag junkPlanner ''W1'') 0 [junkTagged]))
   \<and> map action (recommendations (generatePlan junkPlanner 0 [junkTagged]))
       = map action (recommendations (generatePlan (removeTag junkPlanner ''W1'') 0 [junkTagged]))"
  using C6_junk_tag_effect [OF junkPlanner_tag, of 0 "[junkTagged]"] junkPlanner_tag
  by (simp add: plan_junkTagged)

text \<open>
  Claim C8: two calls of \<open>generatePlan\<close> in a row on the same planner object and the same
  item array, the second made in the world that the first one left and at another time,
  both return; the two plans hold the same recommendations in the same order (items,
  actions, reasons, scores and protection lists) and the same summary, in two distinct
  arrays, and differ in the timestamp. The second call does not disturb the plan of the
  first, and after both calls the planner object and the item array are as they were.
\<close>

theorem C8_generatePlan_twice:
  assumes "its < length (itemArrays w)"
  shows "\<exists>plan1 w1 plan2 w2.
           generatePlanW its w = Some (plan1, w1)
         \<and> generatePlanW its (w1\<lparr>clock := t2\<rparr>) = Some (plan2, w2)
         \<and> recsAt w2 (recommendationsRef plan2) = recsAt w2 (recommendationsRef plan1)
         \<and> summaryOf plan2 = summaryOf plan1
         \<and> generatedAtOf plan1 = clock w \<and> generatedAtOf plan2 = t2
         \<and> recommendationsRef plan2 \<noteq> recommendationsRef plan1
         \<and> recsAt w2 (recommendationsRef plan1) = recsAt w1 (recommendationsRef plan1)
         \<and> plannerObject w2 = plannerObject w
         \<and> itemsAt w2 its = itemsAt w its"
proof -
  from generatePlanW_returns [OF assms] obtain plan1 w1 where
    run1: "generatePlanW its w = Some (plan1, w1)" and
    ext1: "extendsRecs w w1" and
    ref1: "recommendationsRef plan1 = length (recArrays w)" and
    ref1': "recommendationsRef plan1 < length (recArrays w1)" and
    recs1: "recsAt w1 (recommendationsRef plan1) =
              recommendations (generatePlan (plannerObject w) (clock w) (itemsAt w its))" and
    sum1: "summaryOf plan1 = summary (generatePlan (plannerObject w) (clock w) (itemsAt w its))" and
    at1: "generatedAtOf plan1 = clock w"
    by blast
  define v where "v = w1\<lparr>clock := t2\<rparr>"
  have p1: "plannerObject w1 = plannerObject w"
    using ext1 by (simp add: extendsRecs_def)
  have its1: "its < length (itemArrays w1)"
    using extendsRecs_lengths(1) [OF ext1] assms by simp
  have items1: "itemsAt w1 its = itemsAt w its"
    using ext1 assms by (rule extendsRecs_itemsAt)
  have v: "its < length (itemArrays v)" "plannerObject v = plannerObject w"
    "itemsAt v its = itemsAt w its" "clock v = t2" "recArrays v = recArrays w1"
    "recsAt v (recommendationsRef plan1) = recsAt w1 (recommendationsRef plan1)"
    using its1 p1 items1 by (simp_all add: v_def itemsAt_def recsAt_def)
  from generatePlanW_returns [OF v(1)] obtain plan2 w2 where
    run2: "generatePlanW its v = Some (plan2, w2)" and
    ext2: "extendsRecs v w2" and
    ref2: "recommendationsRef plan2 = length (recArrays v)" and
    recs2: "recsAt w2 (recommendationsRef plan2) =
              recommendations (generatePlan (plannerObject v) (clock v) (itemsAt v its))" and
    sum2: "summaryOf plan2 = summary (generatePlan (plannerObject v) (clock v) (itemsAt v its))" and
    at2: "generatedAtOf plan2 = clock v"
    by blast
  have keep1: "recsAt w2 (recommendationsRef plan1) = recsAt w1 (recommendationsRef plan1)"
    using extendsRecs_recsAt [OF ext2, of "recommendationsRef plan1"] ref1' v(5,6) by simp
  have same: "recsAt w2 (recommendationsRef plan2) = recsAt w2 (recommendationsRef plan1)"
    unfolding keep1 recs1 recs2 v(2,3) by (rule generatePlan_clock)
  have sums: "summaryOf plan2 = summaryOf plan1"
    unfolding sum1 sum2 v(2,3) by (rule generatePlan_clock)
  have distinct: "recommendationsRef plan2 \<noteq> recommendationsRef plan1"
    using ref1' ref2 v(5) by simp
  have p2: "plannerObject w2 = plannerObject w"
    using ext2 v(2) by (simp add: extendsRecs_def)
  have items2: "itemsAt w2 its = itemsAt w its"
    using extendsRecs_itemsAt [OF ext2 v(1)] v(3) by simp
  show ?thesis
    using run1 run2 same sums at1 at2 distinct keep1 p2 items2
    unfolding v_def v(4) [unfolded v_def] by (simp add: v_def)
qed

theorem C8_generatePlan_twice_witness:
  "\<exists>plan1 w1 plan2 w2.
           generatePlanW 0 scenarioBWorld = Some (plan1, w1)
         \<and> generatePlanW 0 (w1\<lparr>clock := 5\<rparr>) = Some (plan2, w2)
         \<and> recsAt w2 (recommendationsRef plan2) = recsAt w2 (recommendationsRef plan1)
         \<and> summaryOf plan2 = summaryOf plan1
         \<and> generatedAtOf plan1 = 0 \<and> generatedAtOf plan2 = 5
         \<and> recommendationsRef plan2 \<noteq> recommendationsRef plan1
         \<and> recsAt w2 (recommendationsRef plan1) = recsAt w1 (recommendationsRef plan1)
         \<and> plannerObject w2 = plainPlanner
         \<and> itemsAt w2 0 = scenarioB"
  using C8_generatePlan_twice [of 0 scenarioBWorld 5]
  by (simp add: scenarioBWorld_def itemsAt_def)

subsection \<open>Duplicate groups\<close>

text \<open>
  Claim C7: in every group that \<open>findDuplicates\<close> returns, all items have the hash of
  the group and none is of category \<open>Other\<close>; the group has at least \<open>minDuplicates\<close>
  items (2 by default); and the groups are ordered by descending size.
\<close>

theorem C7_duplicate_groups:
  "(\<forall>g \<in> set (findDuplicates finder its).
       (\<forall>i \<in> set (groupItems g). itemHash i = groupHash g \<and> itemType i \<noteq> Other) \<and>
       minDuplicates (options finder) \<le> int (length (groupItems g)))
   \<and> sorted_wrt (\<lambda>a b. length (groupItems a) \<ge> length (groupItems b))
         (findDuplicates finder its)
   \<and> minDuplicates DEFAULT_OPTIONS = 2"
proof -
  have ok: "groupsOk (collectGroups (options finder) its [])"
    by (rule groupsOk_collectGroups) (simp add: groupsOk_def)
  have groups: "\<forall>g \<in> set (findDuplicates finder its).
       (\<forall>i \<in> set (groupItems g). itemHash i = groupHash g \<and> itemType i \<noteq> Other) \<and>
       minDuplicates (options finder) \<le> int (length (groupItems g))"
  proof
    fix g assume "g \<in> set (findDuplicates finder its)"
    then have g: "g \<in> set (buildGroups finder (collectGroups (options finder) its []))"
      by (simp add: findDuplicates_def set_jsSort)
    from buildGroups_mem [OF g] ok
    have "\<forall>i \<in> set (groupItems g). itemHash i = groupHash g \<and> itemType i \<noteq> Other"
      unfolding groupsOk_def by fast
    with buildGroups_mem [OF g]
    show "(\<forall>i \<in> set (groupItems g). itemHash i = groupHash g \<and> itemType i \<noteq> Other) \<and>
          minDuplicates (options finder) \<le> int (length (groupItems g))" by simp
  qed
  have "sorted_wrt (\<lambda>a b. int (length (groupItems b)) - int (length (groupItems a)) \<le> 0)
          (findDuplicates finder its)"
    unfolding findDuplicates_def by (rule sorted_jsSort) auto
  then have order: "sorted_wrt (\<lambda>a b. length (groupItems a) \<ge> length (groupItems b))
               (findDuplicates finder its)"
    by simp
  have "minDuplicates DEFAULT_OPTIONS = 2" by (simp add: DEFAULT_OPTIONS_def)
  with groups order show ?thesis by simp
qed

text \<open>Two weapons of one definition and a third of another: one group of two.\<close>

theorem C7_duplicate_groups_witness:
  "map groupHash (findDuplicates (newDuplicateFinder DEFAULT_OPTIONS) mixedInventory) = [7]
   \<and> map groupItems (findDuplicates (newDuplicateFinder DEFAULT_OPTIONS) mixedInventory)
       = [[mkWeapon ''M1'' 7 1810 False False, mkWeapon ''M3'' 7 1800 False False]]
   \<and> itemHash (mkWeapon ''M1'' 7 1810 False False) = 7
   \<and> itemHash (mkWeapon ''M3'' 7 1800 False False) = 7
   \<and> itemType (mkWeapon ''M1'' 7 1810 False False) \<noteq> Other
   \<and> itemType (mkWeapon ''M3'' 7 1800 False False) \<noteq> Other
   \<and> minDuplicates (options (newDuplicateFinder DEFAULT_OPTIONS)) \<le> 2"
proof -
  obtain g where g: "findDuplicates (newDuplicateFinder DEFAULT_OPTIONS) mixedInventory = [g]"
    and gh: "groupHash g = 7"
    and gi: "groupItems g = [mkWeapon ''M1'' 7 1810 False False, mkWeapon ''M3'' 7 1800 False False]"
    using findDuplicates_mixed by (auto simp: map_eq_Cons_conv)
  from C7_duplicate_groups [of "newDuplicateFinder DEFAULT_OPTIONS" mixedInventory]
  show ?thesis by (simp add: g gh gi)
qed

end
